theory Spec2Isabelle
  imports Main "HOL-Library.Sublist" "HOL-Library.Char_ord" "HOL-Library.List_Lexorder"
begin

section \<open>Paths (pathlib, POSIX flavour)\<close>

text \<open>
  A \<^verbatim>\<open>Path\<close> is modelled by its \<^verbatim>\<open>parts\<close> tuple, as pathlib keeps it: the
  components in order, preceded by the root (\<^verbatim>\<open>/\<close> or \<^verbatim>\<open>//\<close>) when the path is
  absolute. pathlib compares and sorts paths by this tuple, component by component, and
  components as strings; that is the lexicographic order of \<open>string list\<close>.
\<close>

type_synonym path = "string list"

text \<open>\<^verbatim>\<open>s.split("/")\<close>: the pieces between the separators, empty pieces included.\<close>

fun split_sep :: "string \<Rightarrow> string list" where
  "split_sep [] = [[]]"
| "split_sep (c # cs) =
     (if c = CHR ''/'' then [] # split_sep cs
      else (case split_sep cs of [] \<Rightarrow> [[c]] | w # ws \<Rightarrow> (c # w) # ws))"

text \<open>
  Parsing a string into parts: a leading run of exactly two slashes is the root \<^verbatim>\<open>//\<close>,
  any other leading run of slashes is the root \<^verbatim>\<open>/\<close>; empty components and \<^verbatim>\<open>.\<close>
  components are dropped, \<^verbatim>\<open>..\<close> is kept.
\<close>

definition parse_parts :: "string \<Rightarrow> path" where
  "parse_parts s =
     (let stripped = dropWhile (\<lambda>c. c = CHR ''/'') s;
          n = length s - length stripped;
          root = (if n = 0 then [] else if n = 2 then [''//''] else [''/''])
      in root @ filter (\<lambda>x. x \<noteq> [] \<and> x \<noteq> ''.'') (split_sep stripped))"

definition is_absolute :: "path \<Rightarrow> bool" where
  "is_absolute p = (case p of [] \<Rightarrow> False | x # xs \<Rightarrow> (case x of [] \<Rightarrow> False | c # cs \<Rightarrow> c = CHR ''/''))"

text \<open>\<^verbatim>\<open>root / s\<close>: an absolute right operand replaces the left one.\<close>

definition joinpath :: "path \<Rightarrow> string \<Rightarrow> path" where
  "joinpath root s = (let q = parse_parts s in if is_absolute q then q else root @ q)"

text \<open>\<^verbatim>\<open>"/".join(xs)\<close>\<close>

fun join_sep :: "string list \<Rightarrow> string" where
  "join_sep [] = []"
| "join_sep [x] = x"
| "join_sep (x # y # ys) = x @ ''/'' @ join_sep (y # ys)"

text \<open>\<^verbatim>\<open>str(p)\<close>: the empty relative path prints as a dot.\<close>

definition str_path :: "path \<Rightarrow> string" where
  "str_path p =
     (if p = [] then ''.''
      else if is_absolute p then hd p @ join_sep (tl p)
      else join_sep p)"

text \<open>\<^verbatim>\<open>s.startswith(d)\<close>\<close>

definition startswith :: "string \<Rightarrow> string \<Rightarrow> bool" where
  "startswith s d = prefix d s"

text \<open>
  \<^verbatim>\<open>fnmatch.fnmatchcase(name, pat)\<close> for patterns built from literal characters,
  \<^verbatim>\<open>*\<close> and \<^verbatim>\<open>?\<close>. Bracket classes are not modelled; no pattern of this program
  uses one.
\<close>

fun fnmatchcase :: "string \<Rightarrow> string \<Rightarrow> bool" where
  "fnmatchcase [] [] = True"
| "fnmatchcase (c # cs) [] = False"
| "fnmatchcase [] (p # ps) = (p = CHR ''*'' \<and> fnmatchcase [] ps)"
| "fnmatchcase (c # cs) (p # ps) =
     (if p = CHR ''*'' then fnmatchcase (c # cs) ps \<or> fnmatchcase cs (p # ps)
      else (p = CHR ''?'' \<or> p = c) \<and> fnmatchcase cs ps)"

text \<open>
  \<^verbatim>\<open>p.match(pattern)\<close> for a relative pattern of one component: the last part of
  the path is matched against it; a path with no part does not match.
\<close>

definition path_match :: "path \<Rightarrow> string \<Rightarrow> bool" where
  "path_match p pattern = (case p of [] \<Rightarrow> False | x # xs \<Rightarrow> fnmatchcase (last p) pattern)"

section \<open>Exceptions\<close>

text \<open>
  Every \<^verbatim>\<open>raise\<close> of the program is a constructor. Exceptions raised by the external
  collaborators (file read, document store, console) carry the collaborator's message
  and are wrapped by the raise site.
\<close>

datatype exn =
    NotInSubpath
  | FileNotFound string
  | NotInContextDirectory string
  | UnknownFileType string
  | DirectoryNotFound string
  | NotContextDirectory string
  | CannotDetermineCollection
  | CannotDetermineFileType
  | KeyError string
  | ReadError string
  | StoreError string
  | PrintError string

text \<open>\<^verbatim>\<open>p.relative_to(other)\<close>: raises ValueError unless \<open>other\<close> is a prefix of \<open>p\<close>.\<close>

definition relative_to :: "path \<Rightarrow> path \<Rightarrow> exn + path" where
  "relative_to p other = (if prefix other p then Inr (drop (length other) p) else Inl NotInSubpath)"

section \<open>The console\<close>

text \<open>
  The lines the program prints whose text holds data of the run (a path, the message of
  an exception): the progress lines of the verbose mode, the line the loop prints for a
  file that raised, the file list of the interactive mode, the table of the dry run and
  the error line of the outer handler. Lines made of literals and counts only render the
  same at every run and are left out.
\<close>

datatype console_line =
    UpdatedLine string
  | AddedLine string
  | ErrorProcessingLine path exn
  | FileLine string
  | ReportTable "(string \<times> string \<times> string) list"
  | ErrorLine exn

text \<open>
  The console is a parameter: for each line, \<^verbatim>\<open>console.print\<close> returns or raises
  (\<open>Inl\<close> with the message). The library parses the text as markup and raises when,
  for one, a closing tag matches no open tag; the program does not escape what it
  prints.
\<close>

type_synonym console = "console_line \<Rightarrow> string + unit"

text \<open>\<^verbatim>\<open>if verbose: console.print(...)\<close>\<close>

definition verbose_print :: "console \<Rightarrow> bool \<Rightarrow> console_line \<Rightarrow> string + unit" where
  "verbose_print con verbose line = (if verbose then con line else Inr ())"

section \<open>Collection mappings\<close>

record mapping =
  directories :: "string list"
  file_pattern :: string
  doc_type :: string

text \<open>The dictionary \<^verbatim>\<open>COLLECTION_MAPPINGS\<close>, in insertion order.\<close>

definition COLLECTION_MAPPINGS :: "(string \<times> mapping) list" where
  "COLLECTION_MAPPINGS =
     [(''business-and-architecture'',
         \<lparr>directories = [''docs/adrs'', ''docs/business''], file_pattern = ''*.md'', doc_type = ''adr''\<rparr>),
      (''features'',
         \<lparr>directories = [''docs/features''], file_pattern = ''*.feature'', doc_type = ''feature''\<rparr>),
      (''tech-specs'',
         \<lparr>directories = [''docs/ts4''], file_pattern = ''*.ts4'', doc_type = ''ts4''\<rparr>),
      (''uisi'',
         \<lparr>directories = [''docs/ui-intent''], file_pattern = ''*.yaml'', doc_type = ''ui-intent''\<rparr>)]"

definition REQUIRED_COLLECTIONS :: "string list" where
  "REQUIRED_COLLECTIONS = map fst COLLECTION_MAPPINGS"

section \<open>Classification\<close>

text \<open>
  The two nested loops of \<^verbatim>\<open>get_collection_for_file\<close>: the inner one over the
  directories of one mapping, the outer one over the mappings. The first directory whose
  name is a string prefix of the relative path and whose mapping's pattern matches the
  file returns the collection name.
\<close>

fun collection_in_dirs :: "string \<Rightarrow> mapping \<Rightarrow> path \<Rightarrow> string \<Rightarrow> string list \<Rightarrow> string option" where
  "collection_in_dirs collection_name m file_path rel [] = None"
| "collection_in_dirs collection_name m file_path rel (directory # ds) =
     (if startswith rel directory \<and> path_match file_path (file_pattern m)
      then Some collection_name
      else collection_in_dirs collection_name m file_path rel ds)"

fun collection_in_mappings :: "(string \<times> mapping) list \<Rightarrow> path \<Rightarrow> string \<Rightarrow> string option" where
  "collection_in_mappings [] file_path rel = None"
| "collection_in_mappings ((collection_name, m) # ms) file_path rel =
     (case collection_in_dirs collection_name m file_path rel (directories m) of
        Some c \<Rightarrow> Some c
      | None \<Rightarrow> collection_in_mappings ms file_path rel)"

definition get_collection_for_file :: "path \<Rightarrow> path \<Rightarrow> exn + string option" where
  "get_collection_for_file file_path project_root =
     (case relative_to file_path project_root of
        Inl e \<Rightarrow> Inl e
      | Inr relative_path \<Rightarrow>
          Inr (collection_in_mappings COLLECTION_MAPPINGS file_path (str_path relative_path)))"

text \<open>\<^verbatim>\<open>get_file_type\<close>: the same loops, returning the mapping's type tag.\<close>

fun type_in_dirs :: "mapping \<Rightarrow> path \<Rightarrow> string \<Rightarrow> string list \<Rightarrow> string option" where
  "type_in_dirs m file_path rel [] = None"
| "type_in_dirs m file_path rel (directory # ds) =
     (if startswith rel directory \<and> path_match file_path (file_pattern m)
      then Some (doc_type m)
      else type_in_dirs m file_path rel ds)"

fun type_in_mappings :: "(string \<times> mapping) list \<Rightarrow> path \<Rightarrow> string \<Rightarrow> string option" where
  "type_in_mappings [] file_path rel = None"
| "type_in_mappings ((collection_name, m) # ms) file_path rel =
     (case type_in_dirs m file_path rel (directories m) of
        Some t \<Rightarrow> Some t
      | None \<Rightarrow> type_in_mappings ms file_path rel)"

definition get_file_type :: "path \<Rightarrow> path \<Rightarrow> exn + string option" where
  "get_file_type file_path project_root =
     (case relative_to file_path project_root of
        Inl e \<Rightarrow> Inl e
      | Inr relative_path \<Rightarrow>
          Inr (type_in_mappings COLLECTION_MAPPINGS file_path (str_path relative_path)))"

text \<open>
  Python truthiness of an \<^verbatim>\<open>Optional[str]\<close>: \<^verbatim>\<open>None\<close> and the empty string are
  false.
\<close>

definition truthy :: "string option \<Rightarrow> bool" where
  "truthy x = (case x of None \<Rightarrow> False | Some s \<Rightarrow> s \<noteq> [])"

section \<open>The filesystem boundary\<close>

text \<open>
  The filesystem is the list of the paths that exist (files and directories, in the
  order a directory scan yields them) and the outcome of reading each path as UTF-8
  text: the text, or the message of the exception the read raises.
\<close>

record filesystem =
  entries :: "path list"
  read_text :: "path \<Rightarrow> string + string"

definition path_exists :: "filesystem \<Rightarrow> path \<Rightarrow> bool" where
  "path_exists fs p = (p \<in> set (entries fs))"

text \<open>
  \<^verbatim>\<open>d.rglob(pattern)\<close> for a pattern of one component: every existing path strictly
  below \<open>d\<close> whose last component matches the pattern.
\<close>

definition rglob :: "filesystem \<Rightarrow> path \<Rightarrow> string \<Rightarrow> path list" where
  "rglob fs d pattern = filter (\<lambda>p. strict_prefix d p \<and> fnmatchcase (last p) pattern) (entries fs)"

section \<open>Selecting the files to reindex\<close>

text \<open>The local dictionary \<^verbatim>\<open>type_mapping\<close> of \<^verbatim>\<open>get_files_to_reindex\<close>.\<close>

definition type_mapping :: "(string \<times> string \<times> string) list" where
  "type_mapping =
     [(''ts4'', (''docs/ts4'', ''*.ts4'')),
      (''feature'', (''docs/features'', ''*.feature'')),
      (''md'', (''docs/adrs'', ''*.md'')),
      (''yaml'', (''docs/ui-intent'', ''*.yaml''))]"

text \<open>One iteration of a loop that extends \<^verbatim>\<open>files\<close> from a directory if it exists.\<close>

definition extend_from :: "filesystem \<Rightarrow> path \<Rightarrow> string \<Rightarrow> string \<Rightarrow> path list" where
  "extend_from fs project_root dir_name pattern =
     (let dir_path = joinpath project_root dir_name
      in if path_exists fs dir_path then rglob fs dir_path pattern else [])"

text \<open>Branch \<^verbatim>\<open>if file_path\<close>: a single file.\<close>

definition files_single :: "filesystem \<Rightarrow> path \<Rightarrow> string \<Rightarrow> exn + path list" where
  "files_single fs project_root file_path =
     (let full_path = joinpath project_root file_path
      in if \<not> path_exists fs full_path then Inl (FileNotFound file_path)
         else (case get_collection_for_file full_path project_root of
                 Inl e \<Rightarrow> Inl e
               | Inr collection \<Rightarrow>
                   if \<not> truthy collection then Inl (NotInContextDirectory file_path)
                   else Inr [full_path]))"

text \<open>Branch \<^verbatim>\<open>elif file_type\<close>: the files of one type.\<close>

definition files_by_type :: "filesystem \<Rightarrow> path \<Rightarrow> string \<Rightarrow> exn + path list" where
  "files_by_type fs project_root file_type =
     (case map_of type_mapping file_type of
        None \<Rightarrow> Inl (UnknownFileType file_type)
      | Some dir_pattern \<Rightarrow>
          if file_type = ''md''
          then Inr (concat (map (\<lambda>dir_name. extend_from fs project_root dir_name ''*.md'')
                              [''docs/adrs'', ''docs/business'']))
          else Inr (extend_from fs project_root (fst dir_pattern) (snd dir_pattern)))"

text \<open>
  Branch \<^verbatim>\<open>elif directory\<close>: the \<^verbatim>\<open>for ... break ... else\<close> loop over the mappings,
  which takes the pattern of the first mapping that lists the directory.
\<close>

fun files_in_directory :: "filesystem \<Rightarrow> path \<Rightarrow> string \<Rightarrow> (string \<times> mapping) list \<Rightarrow> exn + path list" where
  "files_in_directory fs dir_path directory [] = Inl (NotContextDirectory directory)"
| "files_in_directory fs dir_path directory ((collection_name, m) # ms) =
     (if directory \<in> set (directories m) then Inr (rglob fs dir_path (file_pattern m))
      else files_in_directory fs dir_path directory ms)"

definition files_by_directory :: "filesystem \<Rightarrow> path \<Rightarrow> string \<Rightarrow> exn + path list" where
  "files_by_directory fs project_root directory =
     (let dir_path = joinpath project_root directory
      in if \<not> path_exists fs dir_path then Inl (DirectoryNotFound directory)
         else files_in_directory fs dir_path directory COLLECTION_MAPPINGS)"

text \<open>Branch \<^verbatim>\<open>else\<close>: all context files.\<close>

definition files_all :: "filesystem \<Rightarrow> path \<Rightarrow> path list" where
  "files_all fs project_root =
     concat (map (\<lambda>(collection_name, m).
                    concat (map (\<lambda>dir_name. extend_from fs project_root dir_name (file_pattern m))
                              (directories m)))
               COLLECTION_MAPPINGS)"

definition str_arg :: "string option \<Rightarrow> string" where
  "str_arg x = (case x of None \<Rightarrow> [] | Some s \<Rightarrow> s)"

text \<open>
  \<^verbatim>\<open>get_files_to_reindex\<close>: the collected list, then \<^verbatim>\<open>sorted(set(files))\<close>.
\<close>

definition collect_files :: "filesystem \<Rightarrow> path \<Rightarrow> string option \<Rightarrow> string option \<Rightarrow> string option \<Rightarrow> exn + path list" where
  "collect_files fs project_root file_path file_type directory =
     (if truthy file_path then files_single fs project_root (str_arg file_path)
      else if truthy file_type then files_by_type fs project_root (str_arg file_type)
      else if truthy directory then files_by_directory fs project_root (str_arg directory)
      else Inr (files_all fs project_root))"

definition get_files_to_reindex :: "filesystem \<Rightarrow> path \<Rightarrow> string option \<Rightarrow> string option \<Rightarrow> string option \<Rightarrow> exn + path list" where
  "get_files_to_reindex fs project_root file_path file_type directory =
     (case collect_files fs project_root file_path file_type directory of
        Inl e \<Rightarrow> Inl e
      | Inr files \<Rightarrow> Inr (sorted_list_of_set (set files)))"

section \<open>The document store boundary\<close>

text \<open>
  The three metadata fields written with every document (keys \<^verbatim>\<open>file_path\<close>,
  \<^verbatim>\<open>type\<close> and \<^verbatim>\<open>collection\<close> of the dictionary).
\<close>

record metadata =
  meta_file_path :: string
  meta_type :: string
  meta_collection :: string

text \<open>
  The store client is a parameter: the calls the program makes on it, over a store state
  \<open>'s\<close> and collection handles \<open>'h\<close>. A call either returns or raises (\<open>Inl\<close> with
  the message). The lookups (\<^verbatim>\<open>list_collections\<close>, \<^verbatim>\<open>get_collection\<close>,
  \<^verbatim>\<open>collection.get\<close>) read the state; the other calls return the state they leave
  behind, also when they raise. \<open>collection_get\<close> returns the \<^verbatim>\<open>"ids"\<close> entry of the
  result.
\<close>

record ('s, 'h) client =
  list_collections :: "'s \<Rightarrow> string + string list"
  get_or_create_collection :: "string \<Rightarrow> 's \<Rightarrow> (string + unit) \<times> 's"
  get_collection :: "string \<Rightarrow> 's \<Rightarrow> string + 'h"
  collection_get :: "'h \<Rightarrow> string list \<Rightarrow> 's \<Rightarrow> string + string list"
  collection_add :: "'h \<Rightarrow> string \<Rightarrow> string \<Rightarrow> metadata \<Rightarrow> 's \<Rightarrow> (string + unit) \<times> 's"
  collection_update :: "'h \<Rightarrow> string \<Rightarrow> string \<Rightarrow> metadata \<Rightarrow> 's \<Rightarrow> (string + unit) \<times> 's"

section \<open>Collection bootstrap\<close>

definition verify_collections :: "('s, 'h) client \<Rightarrow> 's \<Rightarrow> exn + string list" where
  "verify_collections c s =
     (case list_collections c s of
        Inl msg \<Rightarrow> Inl (StoreError msg)
      | Inr existing_collections \<Rightarrow>
          Inr (filter (\<lambda>col. col \<notin> set existing_collections) REQUIRED_COLLECTIONS))"

text \<open>
  The loop of \<^verbatim>\<open>reindex_command\<close> that creates the missing collections; an exception
  ends it.
\<close>

fun create_collections :: "('s, 'h) client \<Rightarrow> string list \<Rightarrow> 's \<Rightarrow> (exn + unit) \<times> 's" where
  "create_collections c [] s = (Inr (), s)"
| "create_collections c (col_name # rest) s =
     (case get_or_create_collection c col_name s of
        (Inl msg, s') \<Rightarrow> (Inl (StoreError msg), s')
      | (Inr u, s') \<Rightarrow> create_collections c rest s')"

text \<open>
  The bootstrap step of \<^verbatim>\<open>reindex_command\<close>: verify, then create what is missing.
  It returns the list of missing collections it computed.
\<close>

definition ensure_collections :: "('s, 'h) client \<Rightarrow> 's \<Rightarrow> (exn + string list) \<times> 's" where
  "ensure_collections c s =
     (case verify_collections c s of
        Inl e \<Rightarrow> (Inl e, s)
      | Inr missing_collections \<Rightarrow>
          (case create_collections c missing_collections s of
             (Inl e, s') \<Rightarrow> (Inl e, s')
           | (Inr u, s') \<Rightarrow> (Inr missing_collections, s')))"

section \<open>Reconciling one file\<close>

text \<open>
  The second half of \<^verbatim>\<open>reindex_file\<close>, from \<^verbatim>\<open>client.get_collection\<close> on: the
  existence check, whose exception means the document does not exist, then the update
  or the insert, and after it the progress line of the verbose mode, which stands
  between the store call and the \<^verbatim>\<open>return\<close>: when printing it raises, the document
  is stored and the function raises.
\<close>

definition store_document ::
  "('s, 'h) client \<Rightarrow> console \<Rightarrow> string \<Rightarrow> string \<Rightarrow> string \<Rightarrow> string \<Rightarrow> bool \<Rightarrow> 's
     \<Rightarrow> (exn + string) \<times> 's" where
  "store_document c con collection_name file_type file_id content verbose s =
     (case get_collection c collection_name s of
        Inl msg \<Rightarrow> (Inl (StoreError msg), s)
      | Inr collection \<Rightarrow>
          (let doc_exists = (case collection_get c collection [file_id] s of
                               Inl msg \<Rightarrow> False
                             | Inr ids \<Rightarrow> length ids > 0);
               md = \<lparr>meta_file_path = file_id, meta_type = file_type,
                     meta_collection = collection_name\<rparr>
           in if doc_exists
              then (case collection_update c collection file_id content md s of
                      (Inl msg, s') \<Rightarrow> (Inl (StoreError msg), s')
                    | (Inr u, s') \<Rightarrow>
                        (case verbose_print con verbose (UpdatedLine file_id) of
                           Inl msg \<Rightarrow> (Inl (PrintError msg), s')
                         | Inr u' \<Rightarrow> (Inr ''updated'', s')))
              else (case collection_add c collection file_id content md s of
                      (Inl msg, s') \<Rightarrow> (Inl (StoreError msg), s')
                    | (Inr u, s') \<Rightarrow>
                        (case verbose_print con verbose (AddedLine file_id) of
                           Inl msg \<Rightarrow> (Inl (PrintError msg), s')
                         | Inr u' \<Rightarrow> (Inr ''added'', s')))))"

text \<open>
  \<^verbatim>\<open>reindex_file\<close>. The result is the returned string or the exception raised, with
  the store state left behind.
\<close>

definition reindex_file ::
  "('s, 'h) client \<Rightarrow> console \<Rightarrow> filesystem \<Rightarrow> path \<Rightarrow> path \<Rightarrow> bool \<Rightarrow> 's
     \<Rightarrow> (exn + string) \<times> 's" where
  "reindex_file c con fs file_path project_root verbose s =
     (case relative_to file_path project_root of
        Inl e \<Rightarrow> (Inl e, s)
      | Inr relative_path \<Rightarrow>
          (case get_collection_for_file file_path project_root of
             Inl e \<Rightarrow> (Inl e, s)
           | Inr collection_name \<Rightarrow>
               if \<not> truthy collection_name then (Inl CannotDetermineCollection, s)
               else (case get_file_type file_path project_root of
                       Inl e \<Rightarrow> (Inl e, s)
                     | Inr file_type \<Rightarrow>
                         if \<not> truthy file_type then (Inl CannotDetermineFileType, s)
                         else (case read_text fs file_path of
                                 Inl msg \<Rightarrow> (Inl (ReadError msg), s)
                               | Inr content \<Rightarrow>
                                   store_document c con (str_arg collection_name)
                                     (str_arg file_type) (str_path relative_path) content
                                     verbose s))))"

section \<open>The run\<close>

text \<open>The dictionary \<^verbatim>\<open>stats\<close>: its four keys never change, only their counts.\<close>

record stats =
  added :: nat
  updated :: nat
  skipped :: nat
  errors :: nat

definition stats_init :: stats where
  "stats_init = \<lparr>added = 0, updated = 0, skipped = 0, errors = 0\<rparr>"

text \<open>\<^verbatim>\<open>stats[result] += 1\<close>, a KeyError for any other key.\<close>

definition stats_incr :: "stats \<Rightarrow> string \<Rightarrow> exn + stats" where
  "stats_incr st k =
     (if k = ''added'' then Inr (st\<lparr>added := added st + 1\<rparr>)
      else if k = ''updated'' then Inr (st\<lparr>updated := updated st + 1\<rparr>)
      else if k = ''skipped'' then Inr (st\<lparr>skipped := skipped st + 1\<rparr>)
      else if k = ''errors'' then Inr (st\<lparr>errors := errors st + 1\<rparr>)
      else Inl (KeyError k))"

text \<open>
  The body of the \<^verbatim>\<open>try\<close> in the driving loop: reconcile the file, then count its
  result.
\<close>

definition try_file ::
  "('s, 'h) client \<Rightarrow> console \<Rightarrow> filesystem \<Rightarrow> path \<Rightarrow> bool \<Rightarrow> path \<Rightarrow> stats \<Rightarrow> 's
     \<Rightarrow> (exn + stats) \<times> 's" where
  "try_file c con fs project_root verbose file_path_obj st s =
     (case reindex_file c con fs file_path_obj project_root verbose s of
        (Inl e, s') \<Rightarrow> (Inl e, s')
      | (Inr result, s') \<Rightarrow>
          (case stats_incr st result of
             Inl e \<Rightarrow> (Inl e, s')
           | Inr st' \<Rightarrow> (Inr st', s')))"

text \<open>
  The driving loop of \<^verbatim>\<open>reindex_command\<close>. An exception raised in the body of the
  \<^verbatim>\<open>try\<close> is caught and counted under \<^verbatim>\<open>errors\<close>; the handler then prints, in
  verbose mode, a line with the path and the exception, and the loop goes on with the
  next file. An exception raised by that line is raised inside the handler and leaves
  the loop: the result holds it (\<open>None\<close> when the loop ran to its end) with the counts
  at that point.
\<close>

fun reindex_loop ::
  "('s, 'h) client \<Rightarrow> console \<Rightarrow> filesystem \<Rightarrow> path \<Rightarrow> bool \<Rightarrow> path list \<Rightarrow> stats \<Rightarrow> 's
     \<Rightarrow> (exn option \<times> stats) \<times> 's" where
  "reindex_loop c con fs project_root verbose [] st s = ((None, st), s)"
| "reindex_loop c con fs project_root verbose (file_path_obj # rest) st s =
     (case try_file c con fs project_root verbose file_path_obj st s of
        (Inr st', s') \<Rightarrow> reindex_loop c con fs project_root verbose rest st' s'
      | (Inl e, s') \<Rightarrow>
          (case verbose_print con verbose (ErrorProcessingLine file_path_obj e) of
             Inl msg \<Rightarrow> ((Some (PrintError msg), st\<lparr>errors := errors st + 1\<rparr>), s')
           | Inr u \<Rightarrow>
               reindex_loop c con fs project_root verbose rest
                 (st\<lparr>errors := errors st + 1\<rparr>) s'))"

text \<open>
  The loop of \<^verbatim>\<open>display_dry_run_report\<close>: the rows of the table (path, status,
  action). It only looks documents up.
\<close>

fun dry_run_rows ::
  "('s, 'h) client \<Rightarrow> path list \<Rightarrow> path \<Rightarrow> 's \<Rightarrow> exn + (string \<times> string \<times> string) list" where
  "dry_run_rows c [] project_root s = Inr []"
| "dry_run_rows c (file_path # files) project_root s =
     (case relative_to file_path project_root of
        Inl e \<Rightarrow> Inl e
      | Inr relative_path \<Rightarrow>
          (case get_collection_for_file file_path project_root of
             Inl e \<Rightarrow> Inl e
           | Inr collection_name \<Rightarrow>
               (case (if \<not> truthy collection_name
                      then Inr (str_path relative_path, ''Invalid'', ''Skip'')
                      else (case get_collection c (str_arg collection_name) s of
                              Inl msg \<Rightarrow> Inl (StoreError msg)
                            | Inr collection \<Rightarrow>
                                (case collection_get c collection [str_path relative_path] s of
                                   Inl msg \<Rightarrow> Inr (str_path relative_path, ''New'', ''Add'')
                                 | Inr ids \<Rightarrow>
                                     if length ids > 0
                                     then Inr (str_path relative_path, ''Exists'', ''Update'')
                                     else Inr (str_path relative_path, ''New'', ''Add''))))
                of Inl e \<Rightarrow> Inl e
                 | Inr row \<Rightarrow>
                     (case dry_run_rows c files project_root s of
                        Inl e \<Rightarrow> Inl e
                      | Inr rows \<Rightarrow> Inr (row # rows)))))"

text \<open>\<^verbatim>\<open>display_dry_run_report\<close>: the rows, then the table is printed.\<close>

definition display_dry_run_report ::
  "('s, 'h) client \<Rightarrow> console \<Rightarrow> path list \<Rightarrow> path \<Rightarrow> 's
     \<Rightarrow> exn + (string \<times> string \<times> string) list" where
  "display_dry_run_report c con files project_root s =
     (case dry_run_rows c files project_root s of
        Inl e \<Rightarrow> Inl e
      | Inr rows \<Rightarrow>
          (case con (ReportTable rows) of
             Inl msg \<Rightarrow> Inl (PrintError msg)
           | Inr u \<Rightarrow> Inr rows))"

text \<open>
  The file list of the interactive mode, printed for the first ten files before the
  prompt.
\<close>

fun list_files :: "console \<Rightarrow> path \<Rightarrow> path list \<Rightarrow> exn + unit" where
  "list_files con project_root [] = Inr ()"
| "list_files con project_root (f # files) =
     (case relative_to f project_root of
        Inl e \<Rightarrow> Inl e
      | Inr relative_path \<Rightarrow>
          (case con (FileLine (str_path relative_path)) of
             Inl msg \<Rightarrow> Inl (PrintError msg)
           | Inr u \<Rightarrow> list_files con project_root files))"

definition get_chromadb_path :: "path \<Rightarrow> path" where
  "get_chromadb_path project_root =
     joinpath (joinpath (joinpath (joinpath project_root ''.cliplin'') ''data'') ''context'')
       ''chroma.sqlite3''"

text \<open>How a run of \<^verbatim>\<open>reindex_command\<close> ends.\<close>

datatype run_end =
    NotInitialized
  | Failed exn
  | NoFiles
  | DryRunReport "(string \<times> string \<times> string) list"
  | Aborted
  | Summary stats

record options =
  opt_file_path :: "string option"
  opt_type :: "string option"
  opt_directory :: "string option"
  opt_dry_run :: bool
  opt_verbose :: bool
  opt_interactive :: bool

text \<open>
  The outer handler of \<^verbatim>\<open>reindex_command\<close>: it prints the exception and exits; when
  the print raises, the run ends with that exception instead.
\<close>

definition report_failure :: "console \<Rightarrow> exn \<Rightarrow> run_end" where
  "report_failure con e =
     (case con (ErrorLine e) of Inl msg \<Rightarrow> Failed (PrintError msg) | Inr u \<Rightarrow> Failed e)"

text \<open>
  \<^verbatim>\<open>reindex_command\<close>. The client is the one \<^verbatim>\<open>get_chromadb_client\<close> returned (its
  creation is outside the model); \<open>confirm\<close> is the user's answer to the prompt of the
  interactive mode. The result says where the run ended, with the store state it left.
\<close>

definition reindex_command ::
  "('s, 'h) client \<Rightarrow> console \<Rightarrow> filesystem \<Rightarrow> path \<Rightarrow> options \<Rightarrow> bool \<Rightarrow> 's
     \<Rightarrow> run_end \<times> 's" where
  "reindex_command c con fs project_root opts confirm s =
     (if \<not> path_exists fs (get_chromadb_path project_root) then (NotInitialized, s)
      else (case ensure_collections c s of
              (Inl e, s1) \<Rightarrow> (report_failure con e, s1)
            | (Inr missing_collections, s1) \<Rightarrow>
                (case get_files_to_reindex fs project_root (opt_file_path opts) (opt_type opts)
                        (opt_directory opts) of
                   Inl e \<Rightarrow> (report_failure con e, s1)
                 | Inr files_to_process \<Rightarrow>
                     if files_to_process = [] then (NoFiles, s1)
                     else if opt_dry_run opts
                     then (case display_dry_run_report c con files_to_process project_root s1 of
                             Inl e \<Rightarrow> (report_failure con e, s1)
                           | Inr rows \<Rightarrow> (DryRunReport rows, s1))
                     else (case (if opt_interactive opts
                                 then list_files con project_root (take 10 files_to_process)
                                 else Inr ()) of
                             Inl e \<Rightarrow> (report_failure con e, s1)
                           | Inr u \<Rightarrow>
                               if opt_interactive opts \<and> \<not> confirm then (Aborted, s1)
                               else (case reindex_loop c con fs project_root (opt_verbose opts)
                                            files_to_process stats_init s1 of
                                       ((None, st), s2) \<Rightarrow> (Summary st, s2)
                                     | ((Some e, st), s2) \<Rightarrow> (report_failure con e, s2))))))"

section \<open>An in-memory document store\<close>

text \<open>
  Modelled from the spec: the external document store (the ChromaDB client), which is
  not part of the program. The spec gives it as a store addressable by collection name,
  and within a collection by document identifier, with an existence check by
  identifier, an insert, and an in-place update that replaces content and metadata;
  get-or-create adds a collection only when its name is new. Here a store is the list of
  its collections in creation order, each a map from identifiers to documents. An insert
  of an identifier that is present and an update of one that is absent leave the store
  as it is.
\<close>

record document =
  doc_content :: string
  doc_metadata :: metadata

type_synonym mem = "(string \<times> (string \<rightharpoonup> document)) list"

definition documents_of :: "mem \<Rightarrow> string \<Rightarrow> (string \<rightharpoonup> document)" where
  "documents_of s name = (case map_of s name of None \<Rightarrow> Map.empty | Some docs \<Rightarrow> docs)"

definition put_documents :: "string \<Rightarrow> (string \<rightharpoonup> document) \<Rightarrow> mem \<Rightarrow> mem" where
  "put_documents name docs s = map (\<lambda>(n, d). if n = name then (n, docs) else (n, d)) s"

definition mem_list_collections :: "mem \<Rightarrow> string + string list" where
  "mem_list_collections s = Inr (map fst s)"

definition mem_get_or_create_collection :: "string \<Rightarrow> mem \<Rightarrow> (string + unit) \<times> mem" where
  "mem_get_or_create_collection name s =
     (Inr (), if name \<in> set (map fst s) then s else s @ [(name, Map.empty)])"

definition mem_get_collection :: "string \<Rightarrow> mem \<Rightarrow> string + string" where
  "mem_get_collection name s =
     (if name \<in> set (map fst s) then Inr name else Inl ''collection does not exist'')"

definition mem_collection_get :: "string \<Rightarrow> string list \<Rightarrow> mem \<Rightarrow> string + string list" where
  "mem_collection_get h ids s =
     (case map_of s h of
        None \<Rightarrow> Inl ''collection does not exist''
      | Some docs \<Rightarrow> Inr (filter (\<lambda>i. docs i \<noteq> None) ids))"

definition mem_collection_add ::
  "string \<Rightarrow> string \<Rightarrow> string \<Rightarrow> metadata \<Rightarrow> mem \<Rightarrow> (string + unit) \<times> mem" where
  "mem_collection_add h file_id content md s =
     (case map_of s h of
        None \<Rightarrow> (Inl ''collection does not exist'', s)
      | Some docs \<Rightarrow>
          (Inr (),
           if docs file_id = None
           then put_documents h (docs(file_id \<mapsto> \<lparr>doc_content = content, doc_metadata = md\<rparr>)) s
           else s))"

definition mem_collection_update ::
  "string \<Rightarrow> string \<Rightarrow> string \<Rightarrow> metadata \<Rightarrow> mem \<Rightarrow> (string + unit) \<times> mem" where
  "mem_collection_update h file_id content md s =
     (case map_of s h of
        None \<Rightarrow> (Inl ''collection does not exist'', s)
      | Some docs \<Rightarrow>
          (Inr (),
           if docs file_id = None then s
           else put_documents h (docs(file_id \<mapsto> \<lparr>doc_content = content, doc_metadata = md\<rparr>)) s))"

definition mem_client :: "(mem, string) client" where
  "mem_client =
     \<lparr>list_collections = mem_list_collections,
      get_or_create_collection = mem_get_or_create_collection,
      get_collection = mem_get_collection,
      collection_get = mem_collection_get,
      collection_add = mem_collection_add,
      collection_update = mem_collection_update\<rparr>"


section \<open>Outcomes of a run, and example inputs\<close>

text \<open>
  The outcome each file of a batch receives when the loop runs to the end of the batch,
  in processing order: what \<^verbatim>\<open>reindex_file\<close> returns or raises for it, in the store
  state the files before it left behind (the same state threading as \<open>reindex_loop\<close>).
\<close>

fun run_outcomes ::
  "('s, 'h) client \<Rightarrow> console \<Rightarrow> filesystem \<Rightarrow> path \<Rightarrow> bool \<Rightarrow> path list \<Rightarrow> 's
     \<Rightarrow> (exn + string) list" where
  "run_outcomes c con fs project_root verbose [] s = []"
| "run_outcomes c con fs project_root verbose (f # rest) s =
     (case reindex_file c con fs f project_root verbose s of
        (r, s') \<Rightarrow> r # run_outcomes c con fs project_root verbose rest s')"

text \<open>
  A small project used to instantiate the theorems: two decision records, one of them
  unreadable, a text file that is no context file, a record kept in a sibling directory
  \<^verbatim>\<open>docs/adrs-old\<close>, a business document and a feature file; a store with the
  four required collections, all empty; and a client whose existence check always
  raises.
\<close>

definition example_root :: path where
  "example_root = [''/'', ''proj'']"

definition example_fs :: filesystem where
  "example_fs =
     \<lparr>entries =
        [[''/'', ''proj'', ''.cliplin'', ''data'', ''context'', ''chroma.sqlite3''],
         [''/'', ''proj'', ''docs'', ''adrs''],
         [''/'', ''proj'', ''docs'', ''adrs'', ''b.md''],
         [''/'', ''proj'', ''docs'', ''adrs'', ''a.md''],
         [''/'', ''proj'', ''docs'', ''adrs'', ''notes.txt''],
         [''/'', ''proj'', ''docs'', ''adrs-old''],
         [''/'', ''proj'', ''docs'', ''adrs-old'', ''x.md''],
         [''/'', ''proj'', ''docs'', ''business''],
         [''/'', ''proj'', ''docs'', ''business'', ''plan.md''],
         [''/'', ''proj'', ''docs'', ''features''],
         [''/'', ''proj'', ''docs'', ''features'', ''login.feature'']],
      read_text = (\<lambda>p. if p = [''/'', ''proj'', ''docs'', ''adrs'', ''a.md'']
                         then Inl ''permission denied'' else Inr ''some text'')\<rparr>"

definition example_files :: "path list" where
  "example_files =
     [[''/'', ''proj'', ''docs'', ''adrs'', ''a.md''],
      [''/'', ''proj'', ''docs'', ''adrs'', ''b.md''],
      [''/'', ''proj'', ''docs'', ''features'', ''login.feature'']]"

definition example_store :: mem where
  "example_store =
     [(''business-and-architecture'', Map.empty), (''features'', Map.empty),
      (''tech-specs'', Map.empty), (''uisi'', Map.empty)]"

definition failing_lookup_client :: "(mem, string) client" where
  "failing_lookup_client = mem_client\<lparr>collection_get := (\<lambda>h ids s. Inl ''lookup failed'')\<rparr>"

text \<open>
  The options of a dry run over all context files; a store in which one decision record
  is already indexed; and the example project after that record was edited.
\<close>

definition dry_run_options :: options where
  "dry_run_options =
     \<lparr>opt_file_path = None, opt_type = None, opt_directory = None,
      opt_dry_run = True, opt_verbose = False, opt_interactive = False\<rparr>"

definition indexed_store :: mem where
  "indexed_store =
     [(''business-and-architecture'',
         [''docs/adrs/b.md'' \<mapsto>
            \<lparr>doc_content = ''an older text'',
             doc_metadata = \<lparr>meta_file_path = ''docs/adrs/b.md'', meta_type = ''adr'',
                              meta_collection = ''business-and-architecture''\<rparr>\<rparr>]),
      (''features'', Map.empty), (''tech-specs'', Map.empty), (''uisi'', Map.empty)]"

definition edited_fs :: filesystem where
  "edited_fs = example_fs\<lparr>read_text := (\<lambda>p. Inr ''an edited text'')\<rparr>"

text \<open>
  Two consoles. The first prints every line. The second stands for the markup parser of
  the console library on texts that hold the closing tag \<^verbatim>\<open>[/x]\<close> with no tag open:
  it raises for a line whose path, identifier or message (the text an exception
  carries) contains that tag, and prints every other line.
\<close>

definition quiet_console :: console where
  "quiet_console = (\<lambda>line. Inr ())"

fun contains_text :: "string \<Rightarrow> string \<Rightarrow> bool" where
  "contains_text sub [] = (sub = [])"
| "contains_text sub (c # cs) = (prefix sub (c # cs) \<or> contains_text sub cs)"

definition render_markup :: "string \<Rightarrow> string + unit" where
  "render_markup line_text =
     (if contains_text ''[/x]'' line_text
      then Inl ''closing tag [/x] does not match any open tag''
      else Inr ())"

fun exn_text :: "exn \<Rightarrow> string" where
  "exn_text (FileNotFound t) = t"
| "exn_text (NotInContextDirectory t) = t"
| "exn_text (UnknownFileType t) = t"
| "exn_text (DirectoryNotFound t) = t"
| "exn_text (NotContextDirectory t) = t"
| "exn_text (KeyError t) = t"
| "exn_text (ReadError t) = t"
| "exn_text (StoreError t) = t"
| "exn_text (PrintError t) = t"
| "exn_text NotInSubpath = []"
| "exn_text CannotDetermineCollection = []"
| "exn_text CannotDetermineFileType = []"

fun markup_console :: console where
  "markup_console (UpdatedLine file_id) = render_markup file_id"
| "markup_console (AddedLine file_id) = render_markup file_id"
| "markup_console (ErrorProcessingLine p e) = render_markup (str_path p @ exn_text e)"
| "markup_console (FileLine file_id) = render_markup file_id"
| "markup_console (ReportTable rows) = render_markup (concat (map fst rows))"
| "markup_console (ErrorLine e) = render_markup (exn_text e)"

text \<open>
  A project with a decision record \<^verbatim>\<open>docs/adrs/a[/x].md\<close> (the file \<^verbatim>\<open>x].md\<close> in
  the directory \<^verbatim>\<open>a[\<close>), which cannot be read, next to a readable record and a
  feature file; the same project with every file readable; the options of a verbose run
  over all context files; and a client whose insert and update raise.
\<close>

definition bracket_file :: path where
  "bracket_file = [''/'', ''proj'', ''docs'', ''adrs'', ''a['', ''x].md'']"

definition bracket_fs :: filesystem where
  "bracket_fs =
     \<lparr>entries =
        [[''/'', ''proj'', ''.cliplin'', ''data'', ''context'', ''chroma.sqlite3''],
         [''/'', ''proj'', ''docs'', ''adrs''],
         [''/'', ''proj'', ''docs'', ''adrs'', ''a[''],
         [''/'', ''proj'', ''docs'', ''adrs'', ''a['', ''x].md''],
         [''/'', ''proj'', ''docs'', ''adrs'', ''b.md''],
         [''/'', ''proj'', ''docs'', ''features''],
         [''/'', ''proj'', ''docs'', ''features'', ''login.feature'']],
      read_text = (\<lambda>p. if p = [''/'', ''proj'', ''docs'', ''adrs'', ''a['', ''x].md'']
                         then Inl ''permission denied'' else Inr ''some text'')\<rparr>"

definition bracket_files :: "path list" where
  "bracket_files =
     [[''/'', ''proj'', ''docs'', ''adrs'', ''a['', ''x].md''],
      [''/'', ''proj'', ''docs'', ''adrs'', ''b.md''],
      [''/'', ''proj'', ''docs'', ''features'', ''login.feature'']]"

definition readable_bracket_fs :: filesystem where
  "readable_bracket_fs = bracket_fs\<lparr>read_text := (\<lambda>p. Inr ''some text'')\<rparr>"

definition verbose_options :: options where
  "verbose_options =
     \<lparr>opt_file_path = None, opt_type = None, opt_directory = None,
      opt_dry_run = False, opt_verbose = True, opt_interactive = False\<rparr>"

definition read_only_client :: "(mem, string) client" where
  "read_only_client =
     mem_client\<lparr>collection_add := (\<lambda>h file_id content md s. (Inl ''insert failed'', s)),
                collection_update := (\<lambda>h file_id content md s. (Inl ''update failed'', s))\<rparr>"

text \<open>
  Modelled from the spec: what the spec says of the external document store (sections 3
  and 6), as a property of a client. \<open>collection_of\<close> reads a store state: the
  documents of the collection of a given name, by identifier, when the collection
  exists. In a store that behaves as the spec describes, the handle of an existing
  collection is returned; the existence check by identifier answers, and says whether a
  document is stored under the identifier; the insert of an identifier that is not
  stored returns and stores the document; the update of one that is stored returns and
  replaces content and metadata.
\<close>

definition document_store ::
  "('s, 'h) client \<Rightarrow> ('s \<Rightarrow> string \<Rightarrow> (string \<rightharpoonup> document) option) \<Rightarrow> bool" where
  "document_store c collection_of =
     (\<forall>s name docs. collection_of s name = Some docs \<longrightarrow>
        (\<exists>h. get_collection c name s = Inr h
           \<and> (\<forall>file_id. collection_get c h [file_id] s
                           = Inr (if docs file_id = None then [] else [file_id]))
           \<and> (\<forall>file_id content md. docs file_id = None \<longrightarrow>
                 (\<exists>s'. collection_add c h file_id content md s = (Inr (), s')
                     \<and> collection_of s' name
                         = Some (docs(file_id \<mapsto>
                                   \<lparr>doc_content = content, doc_metadata = md\<rparr>))))
           \<and> (\<forall>file_id content md. docs file_id \<noteq> None \<longrightarrow>
                 (\<exists>s'. collection_update c h file_id content md s = (Inr (), s')
                     \<and> collection_of s' name
                         = Some (docs(file_id \<mapsto>
                                   \<lparr>doc_content = content, doc_metadata = md\<rparr>))))))"

text \<open>
  The spec's words "lies under a registered source directory": some directory of some
  mapping is a proper ancestor of the path, component by component.
\<close>

definition in_registered_directory :: "path \<Rightarrow> path \<Rightarrow> bool" where
  "in_registered_directory project_root p =
     list_ex (\<lambda>(collection_name, m).
                list_ex (\<lambda>d. strict_prefix (joinpath project_root d) p) (directories m))
       COLLECTION_MAPPINGS"


section \<open>Classifier and file type\<close>

lemma collection_in_dirs_cases:
  "collection_in_dirs n m fp rel ds = None \<or> collection_in_dirs n m fp rel ds = Some n"
  by (induction ds) auto

lemma type_in_dirs_cases:
  "type_in_dirs m fp rel ds = None \<or> type_in_dirs m fp rel ds = Some (doc_type m)"
  by (induction ds) auto

lemma dirs_agree:
  "(collection_in_dirs n m fp rel ds = None) = (type_in_dirs m fp rel ds = None)"
  by (induction ds) auto

lemma collection_in_mappings_None:
  "collection_in_mappings ms fp rel = None \<longleftrightarrow> type_in_mappings ms fp rel = None"
proof (induction ms)
  case Nil
  show ?case by simp
next
  case (Cons nm ms)
  obtain n m where nm: "nm = (n, m)" by (cases nm)
  show ?case
  proof (cases "collection_in_dirs n m fp rel (directories m)")
    case None
    moreover from None have "type_in_dirs m fp rel (directories m) = None"
      by (simp add: dirs_agree)
    ultimately show ?thesis using Cons.IH by (simp add: nm)
  next
    case (Some a)
    then have "type_in_dirs m fp rel (directories m) \<noteq> None"
      using dirs_agree [of n m fp rel "directories m"] by simp
    then obtain t where "type_in_dirs m fp rel (directories m) = Some t" by blast
    with Some show ?thesis by (simp add: nm)
  qed
qed

lemma collection_in_mappings_Some:
  "collection_in_mappings ms fp rel = Some c \<Longrightarrow>
     \<exists>m. (c, m) \<in> set ms \<and> type_in_mappings ms fp rel = Some (doc_type m)"
proof (induction ms)
  case Nil
  then show ?case by simp
next
  case (Cons nm ms)
  obtain n m where nm: "nm = (n, m)" by (cases nm)
  show ?case
  proof (cases "collection_in_dirs n m fp rel (directories m)")
    case None
    then have t: "type_in_dirs m fp rel (directories m) = None"
      by (simp add: dirs_agree)
    from None Cons.prems have "collection_in_mappings ms fp rel = Some c"
      by (simp add: nm)
    then obtain m' where "(c, m') \<in> set ms" "type_in_mappings ms fp rel = Some (doc_type m')"
      using Cons.IH by blast
    with t show ?thesis by (auto simp: nm)
  next
    case (Some a)
    with collection_in_dirs_cases [of n m fp rel "directories m"] have "a = n" by simp
    with Some Cons.prems have "c = n" by (simp add: nm)
    from Some have "type_in_dirs m fp rel (directories m) \<noteq> None"
      using dirs_agree [of n m fp rel "directories m"] by simp
    with type_in_dirs_cases [of m fp rel "directories m"]
    have "type_in_dirs m fp rel (directories m) = Some (doc_type m)" by simp
    with \<open>c = n\<close> show ?thesis by (auto simp: nm)
  qed
qed

lemma type_in_mappings_Some:
  "type_in_mappings ms fp rel = Some t \<Longrightarrow>
     \<exists>c m. (c, m) \<in> set ms \<and> t = doc_type m \<and> collection_in_mappings ms fp rel = Some c"
proof (induction ms)
  case Nil
  then show ?case by simp
next
  case (Cons nm ms)
  obtain n m where nm: "nm = (n, m)" by (cases nm)
  show ?case
  proof (cases "type_in_dirs m fp rel (directories m)")
    case None
    then have c: "collection_in_dirs n m fp rel (directories m) = None"
      by (simp add: dirs_agree)
    from None Cons.prems have "type_in_mappings ms fp rel = Some t"
      by (simp add: nm)
    then obtain c' m' where "(c', m') \<in> set ms" "t = doc_type m'"
      "collection_in_mappings ms fp rel = Some c'"
      using Cons.IH by blast
    with c show ?thesis by (auto simp: nm)
  next
    case (Some a)
    with type_in_dirs_cases [of m fp rel "directories m"] have "a = doc_type m" by simp
    with Some Cons.prems have "t = doc_type m" by (simp add: nm)
    from Some have "collection_in_dirs n m fp rel (directories m) \<noteq> None"
      by (simp add: dirs_agree)
    with collection_in_dirs_cases [of n m fp rel "directories m"]
    have "collection_in_dirs n m fp rel (directories m) = Some n" by simp
    with \<open>t = doc_type m\<close> show ?thesis by (auto simp: nm)
  qed
qed

lemma doc_type_nonempty: "(c, m) \<in> set COLLECTION_MAPPINGS \<Longrightarrow> doc_type m \<noteq> []"
  by (auto simp: COLLECTION_MAPPINGS_def)

lemma store_document_not_file_type:
  "fst (store_document c con cn ft fid content v s) \<noteq> Inl CannotDetermineFileType"
  by (auto simp: store_document_def Let_def split: sum.splits prod.splits)

text \<open>
  Claim C9. For every path, \<^verbatim>\<open>get_collection_for_file\<close> and \<^verbatim>\<open>get_file_type\<close>
  agree: they raise the same exception, or both return \<^verbatim>\<open>None\<close>, or the first
  returns the name and the second the type tag of one and the same entry of
  \<^verbatim>\<open>COLLECTION_MAPPINGS\<close>. Hence \<^verbatim>\<open>reindex_file\<close> never raises "Cannot determine
  file type", whatever the client, the console, the filesystem and the store.
\<close>

theorem classifier_and_type_agree:
  "(get_collection_for_file p root = Inl e \<longleftrightarrow> get_file_type p root = Inl e)
   \<and> (get_collection_for_file p root = Inr None \<longleftrightarrow> get_file_type p root = Inr None)
   \<and> (\<forall>cn. get_collection_for_file p root = Inr (Some cn) \<longrightarrow>
         (\<exists>m. (cn, m) \<in> set COLLECTION_MAPPINGS \<and> get_file_type p root = Inr (Some (doc_type m))))
   \<and> (\<forall>t. get_file_type p root = Inr (Some t) \<longrightarrow>
         (\<exists>cn m. (cn, m) \<in> set COLLECTION_MAPPINGS \<and> t = doc_type m
                 \<and> get_collection_for_file p root = Inr (Some cn)))
   \<and> fst (reindex_file c con fs p root v s) \<noteq> Inl CannotDetermineFileType"
proof (intro conjI allI impI)
  show "get_collection_for_file p root = Inl e \<longleftrightarrow> get_file_type p root = Inl e"
    by (simp add: get_collection_for_file_def get_file_type_def split: sum.splits)
  show "get_collection_for_file p root = Inr None \<longleftrightarrow> get_file_type p root = Inr None"
    by (simp add: get_collection_for_file_def get_file_type_def collection_in_mappings_None
          split: sum.splits)
next
  fix cn assume "get_collection_for_file p root = Inr (Some cn)"
  then show "\<exists>m. (cn, m) \<in> set COLLECTION_MAPPINGS \<and> get_file_type p root = Inr (Some (doc_type m))"
    by (auto simp: get_collection_for_file_def get_file_type_def split: sum.splits
          dest: collection_in_mappings_Some)
next
  fix t assume "get_file_type p root = Inr (Some t)"
  then show "\<exists>cn m. (cn, m) \<in> set COLLECTION_MAPPINGS \<and> t = doc_type m
                 \<and> get_collection_for_file p root = Inr (Some cn)"
    by (auto simp: get_collection_for_file_def get_file_type_def split: sum.splits
          dest: type_in_mappings_Some)
next
  show "fst (reindex_file c con fs p root v s) \<noteq> Inl CannotDetermineFileType"
  proof (cases "relative_to p root")
    case (Inl e)
    then show ?thesis
      by (auto simp: reindex_file_def relative_to_def split: if_splits)
  next
    case (Inr rel)
    show ?thesis
    proof (cases "collection_in_mappings COLLECTION_MAPPINGS p (str_path rel)")
      case None
      with Inr show ?thesis
        by (simp add: reindex_file_def get_collection_for_file_def truthy_def)
    next
      case (Some cn)
      then obtain m where m: "(cn, m) \<in> set COLLECTION_MAPPINGS"
        and t: "type_in_mappings COLLECTION_MAPPINGS p (str_path rel) = Some (doc_type m)"
        using collection_in_mappings_Some by blast
      from m have "doc_type m \<noteq> []" by (rule doc_type_nonempty)
      with Inr Some t show ?thesis
        by (simp add: reindex_file_def get_collection_for_file_def get_file_type_def truthy_def
              store_document_not_file_type split: sum.splits)
    qed
  qed
qed

theorem classifier_and_type_agree_witness:
  "get_collection_for_file [''/'', ''p'', ''docs'', ''ts4'', ''a.ts4''] [''/'', ''p'']
     = Inr (Some ''tech-specs'')
   \<and> get_file_type [''/'', ''p'', ''docs'', ''ts4'', ''a.ts4''] [''/'', ''p'']
     = Inr (Some ''ts4'')"
proof -
  have h: "get_collection_for_file [''/'', ''p'', ''docs'', ''ts4'', ''a.ts4''] [''/'', ''p'']
             = Inr (Some ''tech-specs'')"
    by (simp add: get_collection_for_file_def relative_to_def COLLECTION_MAPPINGS_def
          str_path_def is_absolute_def startswith_def path_match_def)
  from classifier_and_type_agree
         [of "[''/'', ''p'', ''docs'', ''ts4'', ''a.ts4'']" "[''/'', ''p'']",
          THEN conjunct2, THEN conjunct2, THEN conjunct1, rule_format, OF h]
  obtain m where "(''tech-specs'', m) \<in> set COLLECTION_MAPPINGS"
    and "get_file_type [''/'', ''p'', ''docs'', ''ts4'', ''a.ts4''] [''/'', ''p'']
           = Inr (Some (doc_type m))"
    by blast
  then have "get_file_type [''/'', ''p'', ''docs'', ''ts4'', ''a.ts4''] [''/'', ''p'']
               = Inr (Some ''ts4'')"
    by (auto simp: COLLECTION_MAPPINGS_def)
  with h show ?thesis by simp
qed


section \<open>The driving loop\<close>

lemma store_document_result:
  "store_document c con cn ft fid content v s = (Inr r, s') \<Longrightarrow> r = ''added'' \<or> r = ''updated''"
  by (auto simp: store_document_def Let_def split: sum.splits prod.splits if_splits)

lemma reindex_file_result:
  "reindex_file c con fs p root v s = (Inr r, s') \<Longrightarrow> r = ''added'' \<or> r = ''updated''"
  unfolding reindex_file_def
  by (auto split: sum.splits if_splits dest: store_document_result)

lemma stats_incr_added: "stats_incr st ''added'' = Inr (st\<lparr>added := added st + 1\<rparr>)"
  by (simp add: stats_incr_def)

lemma stats_incr_updated: "stats_incr st ''updated'' = Inr (st\<lparr>updated := updated st + 1\<rparr>)"
  by (simp add: stats_incr_def)

lemma try_file_error:
  "reindex_file c con fs f root v s = (Inl e, s0) \<Longrightarrow>
     try_file c con fs root v f st s = (Inl e, s0)"
  by (simp add: try_file_def)

lemma try_file_added:
  "reindex_file c con fs f root v s = (Inr ''added'', s0) \<Longrightarrow>
     try_file c con fs root v f st s = (Inr (st\<lparr>added := added st + 1\<rparr>), s0)"
  by (simp add: try_file_def stats_incr_added)

lemma try_file_updated:
  "reindex_file c con fs f root v s = (Inr ''updated'', s0) \<Longrightarrow>
     try_file c con fs root v f st s = (Inr (st\<lparr>updated := updated st + 1\<rparr>), s0)"
  by (simp add: try_file_def stats_incr_updated)

lemma try_file_cases:
  obtains (raised) e s0 where "reindex_file c con fs f root v s = (Inl e, s0)"
      and "try_file c con fs root v f st s = (Inl e, s0)"
    | (added) s0 where "reindex_file c con fs f root v s = (Inr ''added'', s0)"
      and "try_file c con fs root v f st s = (Inr (st\<lparr>added := added st + 1\<rparr>), s0)"
    | (updated) s0 where "reindex_file c con fs f root v s = (Inr ''updated'', s0)"
      and "try_file c con fs root v f st s = (Inr (st\<lparr>updated := updated st + 1\<rparr>), s0)"
proof -
  obtain r0 s0 where step: "reindex_file c con fs f root v s = (r0, s0)"
    by (cases "reindex_file c con fs f root v s")
  show thesis
  proof (cases r0)
    case (Inl e)
    with step have rf: "reindex_file c con fs f root v s = (Inl e, s0)" by simp
    show thesis by (rule raised [OF rf try_file_error [OF rf]])
  next
    case (Inr r)
    with step have step0: "reindex_file c con fs f root v s = (Inr r, s0)" by simp
    from reindex_file_result [OF step0] show thesis
    proof
      assume "r = ''added''"
      with step0 have rf: "reindex_file c con fs f root v s = (Inr ''added'', s0)" by simp
      show thesis by (rule added [OF rf try_file_added [OF rf]])
    next
      assume "r = ''updated''"
      with step0 have rf: "reindex_file c con fs f root v s = (Inr ''updated'', s0)" by simp
      show thesis by (rule updated [OF rf try_file_updated [OF rf]])
    qed
  qed
qed

lemma reindex_loop_Cons_ok:
  "try_file c con fs root v f st s = (Inr st0, s0) \<Longrightarrow>
     reindex_loop c con fs root v (f # files) st s = reindex_loop c con fs root v files st0 s0"
  by simp

lemma reindex_loop_Cons_error:
  "try_file c con fs root v f st s = (Inl e, s0) \<Longrightarrow>
   verbose_print con v (ErrorProcessingLine f e) = Inr u \<Longrightarrow>
     reindex_loop c con fs root v (f # files) st s
       = reindex_loop c con fs root v files (st\<lparr>errors := errors st + 1\<rparr>) s0"
  by simp

lemma reindex_loop_Cons_interrupted:
  "try_file c con fs root v f st s = (Inl e, s0) \<Longrightarrow>
   verbose_print con v (ErrorProcessingLine f e) = Inl msg \<Longrightarrow>
     reindex_loop c con fs root v (f # files) st s
       = ((Some (PrintError msg), st\<lparr>errors := errors st + 1\<rparr>), s0)"
  by simp

lemma run_outcomes_Cons:
  "reindex_file c con fs f root v s = (r, s0) \<Longrightarrow>
     run_outcomes c con fs root v (f # files) s = r # run_outcomes c con fs root v files s0"
  by simp

lemma length_run_outcomes: "length (run_outcomes c con fs root v files s) = length files"
  by (induction files arbitrary: s) (auto split: prod.splits)

lemma run_outcomes_values:
  "r \<in> set (run_outcomes c con fs root v files s) \<Longrightarrow>
     isl r \<or> r = Inr ''added'' \<or> r = Inr ''updated''"
proof (induction files arbitrary: s)
  case Nil
  then show ?case by simp
next
  case (Cons f files)
  obtain r0 s0 where step: "reindex_file c con fs f root v s = (r0, s0)"
    by (cases "reindex_file c con fs f root v s")
  from Cons.prems step have "r = r0 \<or> r \<in> set (run_outcomes c con fs root v files s0)" by simp
  then show ?case
  proof
    assume "r = r0"
    with step reindex_file_result [of c con fs f root v s _ s0] show ?thesis
      by (cases r0) auto
  next
    assume "r \<in> set (run_outcomes c con fs root v files s0)"
    then show ?thesis by (rule Cons.IH)
  qed
qed

text \<open>
  The loop never touches the count of skipped files, also when it is left early.
\<close>

lemma reindex_loop_skipped:
  "skipped (snd (fst (reindex_loop c con fs root v files st s))) = skipped st"
proof (induction files arbitrary: st s)
  case Nil
  show ?case by simp
next
  case (Cons f files)
  show ?case
  proof (cases rule: try_file_cases [of c con fs f root v s st])
    case (raised e s0)
    show ?thesis
    proof (cases "verbose_print con v (ErrorProcessingLine f e)")
      case (Inl msg)
      show ?thesis
        by (simp only: reindex_loop_Cons_interrupted [OF raised(2) Inl]) simp
    next
      case (Inr u)
      show ?thesis
        by (simp only: reindex_loop_Cons_error [OF raised(2) Inr] Cons.IH) simp
    qed
  next
    case (added s0)
    show ?thesis
      by (simp only: reindex_loop_Cons_ok [OF added(2)] Cons.IH) simp
  next
    case (updated s0)
    show ?thesis
      by (simp only: reindex_loop_Cons_ok [OF updated(2)] Cons.IH) simp
  qed
qed

text \<open>
  What the handler of the loop achieves when the line it prints for a failed file does
  not raise (always so when the run is not verbose): the loop runs to the end of the
  batch, and the summary counts under \<^verbatim>\<open>errors\<close> the files that raised and under
  \<^verbatim>\<open>added\<close> and \<^verbatim>\<open>updated\<close> the others.
\<close>

lemma reindex_loop_counts:
  assumes lines: "\<And>f e. verbose_print con v (ErrorProcessingLine f e) = Inr ()"
  shows "\<exists>st' s'. reindex_loop c con fs root v files st s = ((None, st'), s')
     \<and> errors st' = errors st + length (filter isl (run_outcomes c con fs root v files s))
     \<and> added st' = added st
         + length (filter (\<lambda>r. r = Inr ''added'') (run_outcomes c con fs root v files s))
     \<and> updated st' = updated st
         + length (filter (\<lambda>r. r = Inr ''updated'') (run_outcomes c con fs root v files s))"
proof (induction files arbitrary: st s)
  case Nil
  show ?case by simp
next
  case (Cons f files)
  show ?case
  proof (cases rule: try_file_cases [of c con fs f root v s st])
    case (raised e s0)
    note outs = run_outcomes_Cons [OF raised(1), of files]
    note loop = reindex_loop_Cons_error [OF raised(2) lines, of files]
    from Cons.IH [of "st\<lparr>errors := errors st + 1\<rparr>" s0]
    show ?thesis unfolding outs loop by simp
  next
    case (added s0)
    note outs = run_outcomes_Cons [OF added(1), of files]
    note loop = reindex_loop_Cons_ok [OF added(2), of files]
    from Cons.IH [of "st\<lparr>added := added st + 1\<rparr>" s0]
    show ?thesis unfolding outs loop by simp
  next
    case (updated s0)
    note outs = run_outcomes_Cons [OF updated(1), of files]
    note loop = reindex_loop_Cons_ok [OF updated(2), of files]
    from Cons.IH [of "st\<lparr>updated := updated st + 1\<rparr>" s0]
    show ?thesis unfolding outs loop by simp
  qed
qed

lemma filter_partition_outcomes:
  "\<forall>r\<in>set outs. isl r \<or> r = Inr ''added'' \<or> r = Inr ''updated'' \<Longrightarrow>
     length (filter isl outs) + length (filter (\<lambda>r. r = Inr ''added'') outs)
       + length (filter (\<lambda>r. r = Inr ''updated'') outs) = length outs"
  by (induction outs) auto

lemma isolation_when_error_lines_print:
  assumes lines: "\<And>f e. verbose_print con v (ErrorProcessingLine f e) = Inr ()"
  shows "\<exists>st' s'. reindex_loop c con fs root v files stats_init s = ((None, st'), s')
    \<and> length (run_outcomes c con fs root v files s) = length files
    \<and> errors st' = length (filter isl (run_outcomes c con fs root v files s))
    \<and> added st' = length (filter (\<lambda>r. r = Inr ''added'') (run_outcomes c con fs root v files s))
    \<and> updated st'
        = length (filter (\<lambda>r. r = Inr ''updated'') (run_outcomes c con fs root v files s))
    \<and> errors st' + added st' + updated st' = length files"
proof -
  let ?outs = "run_outcomes c con fs root v files s"
  have len: "length ?outs = length files" by (rule length_run_outcomes)
  have vals: "\<forall>r\<in>set ?outs. isl r \<or> r = Inr ''added'' \<or> r = Inr ''updated''"
    by (intro ballI) (rule run_outcomes_values)
  from reindex_loop_counts [OF lines, of c fs root files stats_init s]
  obtain st' s' where run: "reindex_loop c con fs root v files stats_init s = ((None, st'), s')"
    and e: "errors st' = length (filter isl ?outs)"
    and a: "added st' = length (filter (\<lambda>r. r = Inr ''added'') ?outs)"
    and u: "updated st' = length (filter (\<lambda>r. r = Inr ''updated'') ?outs)"
    by (auto simp: stats_init_def)
  from filter_partition_outcomes [OF vals] len e a u
  have total: "errors st' + added st' + updated st' = length files" by simp
  from run len e a u total show ?thesis by (intro exI conjI)
qed

lemma quiet_run_isolates:
  "\<exists>st' s'. reindex_loop c con fs root False files stats_init s = ((None, st'), s')
     \<and> errors st' = length (filter isl (run_outcomes c con fs root False files s))
     \<and> errors st' + added st' + updated st' = length files"
proof -
  have "\<And>f e. verbose_print con False (ErrorProcessingLine f e) = Inr ()"
    by (simp add: verbose_print_def)
  from isolation_when_error_lines_print [OF this, of c fs root files s]
  show ?thesis by blast
qed

lemmas eval_defs = example_root_def example_fs_def example_files_def example_store_def
  reindex_file_def store_document_def get_collection_for_file_def get_file_type_def
  relative_to_def COLLECTION_MAPPINGS_def str_path_def is_absolute_def startswith_def
  path_match_def truthy_def str_arg_def mem_client_def mem_get_collection_def
  mem_collection_get_def mem_collection_add_def mem_collection_update_def put_documents_def
  stats_incr_def stats_init_def verbose_print_def quiet_console_def try_file_def

text \<open>
  Claim C1 fails in a verbose run. The handler of the loop prints the path and the
  exception of the file that raised, unescaped, and that line is itself outside any
  \<^verbatim>\<open>try\<close> of the loop. In the project below the record \<^verbatim>\<open>docs/adrs/a[/x].md\<close>
  cannot be read: the read failure is caught and counted, the line printed for it
  raises, and the loop is left with \<^verbatim>\<open>errors = 1\<close>; the two files after it are
  never reconciled (nothing is stored for them), and the run ends in the outer handler
  without a summary. The same batch in a run that is not verbose is isolated as the
  claim says: one error, the two other files added.
\<close>

theorem error_line_leaves_the_loop:
  "get_files_to_reindex bracket_fs example_root None None None = Inr bracket_files
   \<and> bracket_files = [bracket_file, [''/'', ''proj'', ''docs'', ''adrs'', ''b.md''],
                      [''/'', ''proj'', ''docs'', ''features'', ''login.feature'']]
   \<and> fst (reindex_file mem_client markup_console bracket_fs bracket_file example_root True
            example_store) = Inl (ReadError ''permission denied'')
   \<and> reindex_loop mem_client markup_console bracket_fs example_root True bracket_files
        stats_init example_store
       = ((Some (PrintError ''closing tag [/x] does not match any open tag''),
           \<lparr>added = 0, updated = 0, skipped = 0, errors = 1\<rparr>), example_store)
   \<and> fst (reindex_command mem_client markup_console bracket_fs example_root verbose_options
            False example_store)
       = Failed (PrintError ''closing tag [/x] does not match any open tag'')
   \<and> documents_of (snd (reindex_command mem_client markup_console bracket_fs example_root
                          verbose_options False example_store))
        ''business-and-architecture'' ''docs/adrs/b.md'' = None
   \<and> fst (reindex_command mem_client markup_console bracket_fs example_root
            (verbose_options\<lparr>opt_verbose := False\<rparr>) False example_store)
       = Summary \<lparr>added = 2, updated = 0, skipped = 0, errors = 1\<rparr>"
proof (intro conjI)
  show "get_files_to_reindex bracket_fs example_root None None None = Inr bracket_files"
    by code_simp
  show "bracket_files = [bracket_file, [''/'', ''proj'', ''docs'', ''adrs'', ''b.md''],
                         [''/'', ''proj'', ''docs'', ''features'', ''login.feature'']]"
    by (simp add: bracket_files_def bracket_file_def)
  show "fst (reindex_file mem_client markup_console bracket_fs bracket_file example_root True
               example_store) = Inl (ReadError ''permission denied'')"
    by (simp add: eval_defs bracket_fs_def bracket_file_def)
  show "reindex_loop mem_client markup_console bracket_fs example_root True bracket_files
          stats_init example_store
        = ((Some (PrintError ''closing tag [/x] does not match any open tag''),
            \<lparr>added = 0, updated = 0, skipped = 0, errors = 1\<rparr>), example_store)"
    by (simp add: eval_defs bracket_fs_def bracket_files_def render_markup_def)
  show "fst (reindex_command mem_client markup_console bracket_fs example_root verbose_options
               False example_store)
        = Failed (PrintError ''closing tag [/x] does not match any open tag'')"
    by code_simp
  show "documents_of (snd (reindex_command mem_client markup_console bracket_fs example_root
                             verbose_options False example_store))
          ''business-and-architecture'' ''docs/adrs/b.md'' = None"
    by code_simp
  show "fst (reindex_command mem_client markup_console bracket_fs example_root
               (verbose_options\<lparr>opt_verbose := False\<rparr>) False example_store)
        = Summary \<lparr>added = 2, updated = 0, skipped = 0, errors = 1\<rparr>"
    by code_simp
qed

lemma reindex_command_summary:
  "reindex_command c con fs root opts confirm s = (Summary st, s') \<Longrightarrow>
     \<exists>files s1. reindex_loop c con fs root (opt_verbose opts) files stats_init s1
                  = ((None, st), s')"
  unfolding reindex_command_def report_failure_def
  by (auto split: if_splits prod.splits sum.splits option.splits)

text \<open>
  Claim C8. The outcome \<^verbatim>\<open>skipped\<close> is unreachable: \<^verbatim>\<open>reindex_file\<close> returns only
  \<^verbatim>\<open>added\<close> or \<^verbatim>\<open>updated\<close> (or raises), so the \<^verbatim>\<open>skipped\<close> count of the loop
  and of every summary \<^verbatim>\<open>reindex_command\<close> reports is zero, for every client, console,
  store, filesystem and selection.
\<close>

theorem skipped_unreachable:
  "(\<forall>r s'. reindex_file c con fs p root v s = (Inr r, s') \<longrightarrow> r = ''added'' \<or> r = ''updated'')
   \<and> skipped (snd (fst (reindex_loop c con fs root v files stats_init s))) = 0
   \<and> (\<forall>st s'. reindex_command c con fs root opts confirm s = (Summary st, s') \<longrightarrow> skipped st = 0)"
proof (intro conjI allI impI)
  fix r s' assume "reindex_file c con fs p root v s = (Inr r, s')"
  then show "r = ''added'' \<or> r = ''updated''" by (rule reindex_file_result)
next
  show "skipped (snd (fst (reindex_loop c con fs root v files stats_init s))) = 0"
    by (simp only: reindex_loop_skipped) (simp add: stats_init_def)
next
  fix st s' assume "reindex_command c con fs root opts confirm s = (Summary st, s')"
  then obtain fl s1 where
    run: "reindex_loop c con fs root (opt_verbose opts) fl stats_init s1 = ((None, st), s')"
    using reindex_command_summary [of c con fs root opts confirm s st s'] by auto
  from reindex_loop_skipped [of c con fs root "opt_verbose opts" fl stats_init s1]
  show "skipped st = 0" unfolding run by (simp add: stats_init_def)
qed

theorem skipped_unreachable_witness:
  "fst (reindex_file mem_client quiet_console example_fs
          [''/'', ''proj'', ''docs'', ''adrs'', ''b.md''] example_root True example_store)
     = Inr ''added''
   \<and> skipped (snd (fst (reindex_loop mem_client quiet_console example_fs example_root True
                          example_files stats_init example_store))) = 0"
proof -
  have "fst (reindex_file mem_client quiet_console example_fs
               [''/'', ''proj'', ''docs'', ''adrs'', ''b.md''] example_root True example_store)
          = Inr ''added''"
    by (simp add: eval_defs)
  moreover have "skipped (snd (fst (reindex_loop mem_client quiet_console example_fs
                                      example_root True example_files stats_init
                                      example_store))) = 0"
    using skipped_unreachable [of mem_client quiet_console example_fs _ example_root True
            example_store example_files]
    by blast
  ultimately show ?thesis by simp
qed

section \<open>The existence check\<close>

lemma collection_name_nonempty: "(cn, m) \<in> set COLLECTION_MAPPINGS \<Longrightarrow> cn \<noteq> []"
  by (auto simp: COLLECTION_MAPPINGS_def)

lemma reindex_file_classified:
  assumes rel: "relative_to p root = Inr rel"
    and cls: "get_collection_for_file p root = Inr (Some cn)"
    and rd: "read_text fs p = Inr content"
  shows "\<exists>m. (cn, m) \<in> set COLLECTION_MAPPINGS
           \<and> get_file_type p root = Inr (Some (doc_type m))
           \<and> reindex_file c con fs p root v s
               = store_document c con cn (doc_type m) (str_path rel) content v s"
proof -
  from cls rel have "collection_in_mappings COLLECTION_MAPPINGS p (str_path rel) = Some cn"
    by (simp add: get_collection_for_file_def)
  then obtain m where m: "(cn, m) \<in> set COLLECTION_MAPPINGS"
    and t: "type_in_mappings COLLECTION_MAPPINGS p (str_path rel) = Some (doc_type m)"
    using collection_in_mappings_Some by blast
  from m have ne: "cn \<noteq> []" "doc_type m \<noteq> []"
    by (rule collection_name_nonempty, rule doc_type_nonempty)
  from rel t have ft: "get_file_type p root = Inr (Some (doc_type m))"
    by (simp add: get_file_type_def)
  have "reindex_file c con fs p root v s
          = store_document c con cn (doc_type m) (str_path rel) content v s"
    using rel cls ft rd ne by (simp add: reindex_file_def truthy_def str_arg_def)
  with m ft show ?thesis by blast
qed

text \<open>
  When the existence check raises while a file is reconciled (the file classifies, is
  readable, and its collection handle was obtained), the exception does not leave the
  check: the document counts as nonexistent and the insert is issued with the full
  payload. What \<^verbatim>\<open>reindex_file\<close> then returns is decided by the insert and by the
  progress line printed after it.
\<close>

lemma lookup_failure_issues_insert:
  assumes rel: "relative_to p root = Inr rel"
    and cls: "get_collection_for_file p root = Inr (Some cn)"
    and rd: "read_text fs p = Inr content"
    and gc: "get_collection c cn s = Inr h"
    and lk: "collection_get c h [str_path rel] s = Inl msg"
  shows "\<exists>t. get_file_type p root = Inr (Some t)
           \<and> reindex_file c con fs p root v s =
               (case collection_add c h (str_path rel) content
                       \<lparr>meta_file_path = str_path rel, meta_type = t, meta_collection = cn\<rparr> s of
                  (Inl m, s') \<Rightarrow> (Inl (StoreError m), s')
                | (Inr u, s') \<Rightarrow>
                    (case verbose_print con v (AddedLine (str_path rel)) of
                       Inl m \<Rightarrow> (Inl (PrintError m), s')
                     | Inr u' \<Rightarrow> (Inr ''added'', s')))"
proof -
  from reindex_file_classified [OF rel cls rd, of c con v s]
  obtain m where m: "(cn, m) \<in> set COLLECTION_MAPPINGS"
    and ft: "get_file_type p root = Inr (Some (doc_type m))"
    and r: "reindex_file c con fs p root v s
              = store_document c con cn (doc_type m) (str_path rel) content v s"
    by blast
  have "store_document c con cn (doc_type m) (str_path rel) content v s
          = (case collection_add c h (str_path rel) content
                       \<lparr>meta_file_path = str_path rel, meta_type = doc_type m,
                         meta_collection = cn\<rparr> s of
                  (Inl m, s') \<Rightarrow> (Inl (StoreError m), s')
                | (Inr u, s') \<Rightarrow>
                    (case verbose_print con v (AddedLine (str_path rel)) of
                       Inl m \<Rightarrow> (Inl (PrintError m), s')
                     | Inr u' \<Rightarrow> (Inr ''added'', s')))"
    using gc lk by (simp add: store_document_def)
  with r ft show ?thesis by simp
qed

text \<open>
  Claim C5 fails in a verbose run. The store's existence check raises for the readable
  record \<^verbatim>\<open>docs/adrs/a[/x].md\<close>; the document counts as nonexistent and the insert
  is issued and stores it, as the claim says. But the progress line printed between the
  insert and the \<^verbatim>\<open>return\<close> holds the relative path unescaped and raises, so
  \<^verbatim>\<open>reindex_file\<close> raises instead of returning \<^verbatim>\<open>added\<close>. In a run that is not
  verbose the same call returns \<^verbatim>\<open>added\<close>.
\<close>

theorem progress_line_raises_after_insert:
  "relative_to bracket_file example_root = Inr [''docs'', ''adrs'', ''a['', ''x].md'']
   \<and> str_path [''docs'', ''adrs'', ''a['', ''x].md''] = ''docs/adrs/a[/x].md''
   \<and> get_collection_for_file bracket_file example_root = Inr (Some ''business-and-architecture'')
   \<and> read_text readable_bracket_fs bracket_file = Inr ''some text''
   \<and> collection_get failing_lookup_client ''business-and-architecture''
        [''docs/adrs/a[/x].md''] example_store = Inl ''lookup failed''
   \<and> fst (reindex_file failing_lookup_client markup_console readable_bracket_fs bracket_file
            example_root True example_store)
       = Inl (PrintError ''closing tag [/x] does not match any open tag'')
   \<and> map_option doc_content
        (documents_of
           (snd (reindex_file failing_lookup_client markup_console readable_bracket_fs
                   bracket_file example_root True example_store))
           ''business-and-architecture'' ''docs/adrs/a[/x].md'') = Some ''some text''
   \<and> fst (reindex_file failing_lookup_client markup_console readable_bracket_fs bracket_file
            example_root False example_store) = Inr ''added''"
proof (intro conjI)
  show "relative_to bracket_file example_root = Inr [''docs'', ''adrs'', ''a['', ''x].md'']"
    by (simp add: relative_to_def bracket_file_def example_root_def)
  show "str_path [''docs'', ''adrs'', ''a['', ''x].md''] = ''docs/adrs/a[/x].md''"
    by (simp add: str_path_def is_absolute_def)
  show "get_collection_for_file bracket_file example_root
          = Inr (Some ''business-and-architecture'')"
    by (simp add: eval_defs bracket_file_def)
  show "read_text readable_bracket_fs bracket_file = Inr ''some text''"
    by (simp add: readable_bracket_fs_def)
  show "collection_get failing_lookup_client ''business-and-architecture''
          [''docs/adrs/a[/x].md''] example_store = Inl ''lookup failed''"
    by (simp add: failing_lookup_client_def)
  show "fst (reindex_file failing_lookup_client markup_console readable_bracket_fs bracket_file
               example_root True example_store)
          = Inl (PrintError ''closing tag [/x] does not match any open tag'')"
    by (simp add: eval_defs failing_lookup_client_def readable_bracket_fs_def bracket_file_def
          render_markup_def)
  show "map_option doc_content
          (documents_of
             (snd (reindex_file failing_lookup_client markup_console readable_bracket_fs
                     bracket_file example_root True example_store))
             ''business-and-architecture'' ''docs/adrs/a[/x].md'') = Some ''some text''"
    by (simp add: eval_defs failing_lookup_client_def readable_bracket_fs_def bracket_file_def
          render_markup_def documents_of_def)
  show "fst (reindex_file failing_lookup_client markup_console readable_bracket_fs bracket_file
               example_root False example_store) = Inr ''added''"
    by (simp add: eval_defs failing_lookup_client_def readable_bracket_fs_def bracket_file_def)
qed


section \<open>The selected files\<close>

lemma joinpath_adrs: "joinpath root ''docs/adrs'' = root @ [''docs'', ''adrs'']"
  by (simp add: joinpath_def parse_parts_def is_absolute_def)

lemma joinpath_business: "joinpath root ''docs/business'' = root @ [''docs'', ''business'']"
  by (simp add: joinpath_def parse_parts_def is_absolute_def)

lemma joinpath_features: "joinpath root ''docs/features'' = root @ [''docs'', ''features'']"
  by (simp add: joinpath_def parse_parts_def is_absolute_def)

lemma joinpath_ts4: "joinpath root ''docs/ts4'' = root @ [''docs'', ''ts4'']"
  by (simp add: joinpath_def parse_parts_def is_absolute_def)

lemma joinpath_ui_intent: "joinpath root ''docs/ui-intent'' = root @ [''docs'', ''ui-intent'']"
  by (simp add: joinpath_def parse_parts_def is_absolute_def)

lemma fnmatch_literal:
  "\<forall>c\<in>set pat. c \<noteq> CHR ''*'' \<and> c \<noteq> CHR ''?'' \<Longrightarrow> fnmatchcase name pat \<longleftrightarrow> name = pat"
  by (induction name pat rule: fnmatchcase.induct) auto

lemma fnmatch_star_literal:
  "\<forall>c\<in>set ext. c \<noteq> CHR ''*'' \<and> c \<noteq> CHR ''?'' \<Longrightarrow>
     fnmatchcase name (CHR ''*'' # ext) \<longleftrightarrow> suffix ext name"
proof (induction name)
  case Nil
  then show ?case by (cases ext) (auto simp: fnmatch_literal)
next
  case (Cons c cs)
  then show ?case by (auto simp: fnmatch_literal suffix_Cons)
qed


lemma set_rglob:
  "set (rglob fs d pattern) = {p \<in> set (entries fs). strict_prefix d p \<and> fnmatchcase (last p) pattern}"
  by (simp add: rglob_def)

lemma rglob_md_suffix:
  "set (rglob fs d ''*.md'') = {p \<in> set (entries fs). strict_prefix d p \<and> suffix ''.md'' (last p)}"
  by (simp add: set_rglob fnmatch_star_literal)

lemma extend_from_cong:
  "set (entries fs') = set (entries fs) \<Longrightarrow>
     set (extend_from fs' root d pat) = set (extend_from fs root d pat)"
  by (simp add: extend_from_def Let_def path_exists_def set_rglob)

lemma files_in_directory_cong:
  "set (entries fs') = set (entries fs) \<Longrightarrow>
     map_sum id set (files_in_directory fs' dp d ms) = map_sum id set (files_in_directory fs dp d ms)"
  by (induction ms) (auto simp: set_rglob)

lemma collect_files_cong:
  assumes "set (entries fs') = set (entries fs)"
  shows "map_sum id set (collect_files fs' root fp ft d) = map_sum id set (collect_files fs root fp ft d)"
proof -
  have single: "files_single fs' root x = files_single fs root x" for x
    using assms by (simp add: files_single_def path_exists_def)
  have by_type: "map_sum id set (files_by_type fs' root x) = map_sum id set (files_by_type fs root x)" for x
    by (simp add: files_by_type_def extend_from_cong [OF assms] split: option.splits)
  have by_dir: "map_sum id set (files_by_directory fs' root x) = map_sum id set (files_by_directory fs root x)" for x
    using assms by (simp add: files_by_directory_def Let_def path_exists_def files_in_directory_cong [OF assms])
  have everything: "set (files_all fs' root) = set (files_all fs root)"
    by (simp add: files_all_def COLLECTION_MAPPINGS_def extend_from_cong [OF assms])
  show ?thesis
    by (simp add: collect_files_def single by_type by_dir everything)
qed

lemma get_files_to_reindex_cong:
  assumes "set (entries fs') = set (entries fs)"
  shows "get_files_to_reindex fs' root fp ft d = get_files_to_reindex fs root fp ft d"
proof -
  have "get_files_to_reindex fs root fp ft d =
          map_sum id sorted_list_of_set (map_sum id set (collect_files fs root fp ft d))" for fs
    by (simp add: get_files_to_reindex_def split: sum.splits)
  then show ?thesis by (simp add: collect_files_cong [OF assms])
qed

text \<open>
  Claim C6. Whatever the project root and the selection mode, the list
  \<^verbatim>\<open>get_files_to_reindex\<close> returns has no duplicate and is sorted in the order of
  paths (lexicographic over the components of the absolute path, each component
  compared as a string); and it depends on the filesystem only through the set of
  existing paths, not through the order in which a directory scan yields them, so two
  runs over the same inputs process the files in the same order.
\<close>

theorem selection_sorted_and_distinct:
  assumes "get_files_to_reindex fs root fp ft d = Inr xs"
  shows "distinct xs \<and> sorted xs
    \<and> (\<forall>fs'. set (entries fs') = set (entries fs) \<longrightarrow>
          get_files_to_reindex fs' root fp ft d = Inr xs)"
proof -
  from assms obtain files where "xs = sorted_list_of_set (set files)"
    by (auto simp: get_files_to_reindex_def split: sum.splits)
  then have "distinct xs" "sorted xs" by simp_all
  moreover have "\<forall>fs'. set (entries fs') = set (entries fs) \<longrightarrow>
          get_files_to_reindex fs' root fp ft d = Inr xs"
  proof (intro allI impI)
    fix fs' :: filesystem
    assume "set (entries fs') = set (entries fs)"
    from get_files_to_reindex_cong [OF this, of root fp ft d] assms
    show "get_files_to_reindex fs' root fp ft d = Inr xs" by simp
  qed
  ultimately show ?thesis by simp
qed

theorem selection_sorted_and_distinct_witness:
  "get_files_to_reindex example_fs example_root None None None =
     Inr [[''/'', ''proj'', ''docs'', ''adrs'', ''a.md''],
          [''/'', ''proj'', ''docs'', ''adrs'', ''b.md''],
          [''/'', ''proj'', ''docs'', ''business'', ''plan.md''],
          [''/'', ''proj'', ''docs'', ''features'', ''login.feature'']]
   \<and> sorted [[''/'', ''proj'', ''docs'', ''adrs'', ''a.md''],
          [''/'', ''proj'', ''docs'', ''adrs'', ''b.md''],
          [''/'', ''proj'', ''docs'', ''business'', ''plan.md''],
          [''/'', ''proj'', ''docs'', ''features'', ''login.feature'']]"
proof -
  have sel: "get_files_to_reindex example_fs example_root None None None =
     Inr [[''/'', ''proj'', ''docs'', ''adrs'', ''a.md''],
          [''/'', ''proj'', ''docs'', ''adrs'', ''b.md''],
          [''/'', ''proj'', ''docs'', ''business'', ''plan.md''],
          [''/'', ''proj'', ''docs'', ''features'', ''login.feature'']]"
    by code_simp
  from selection_sorted_and_distinct [OF sel] sel show ?thesis by blast
qed

text \<open>
  Claim C7. With no file path given, selection by type \<^verbatim>\<open>md\<close> returns exactly the
  union of the \<^verbatim>\<open>*.md\<close> paths found recursively under \<^verbatim>\<open>docs/adrs\<close> and under
  \<^verbatim>\<open>docs/business\<close>, without duplicates; a directory that does not exist contributes
  nothing. (By \<open>rglob_md_suffix\<close>, the paths found under a directory are the existing
  paths strictly below it whose name ends in \<^verbatim>\<open>.md\<close>.)
\<close>

theorem md_selection_is_union:
  assumes "\<not> truthy fp"
  shows "\<exists>xs. get_files_to_reindex fs root fp (Some ''md'') d = Inr xs
           \<and> distinct xs
           \<and> set xs =
               (if path_exists fs (root @ [''docs'', ''adrs''])
                then set (rglob fs (root @ [''docs'', ''adrs'']) ''*.md'') else {})
               \<union> (if path_exists fs (root @ [''docs'', ''business''])
                  then set (rglob fs (root @ [''docs'', ''business'']) ''*.md'') else {})"
proof -
  have "collect_files fs root fp (Some ''md'') d =
          Inr (extend_from fs root ''docs/adrs'' ''*.md'' @ extend_from fs root ''docs/business'' ''*.md'')"
    using assms by (simp add: collect_files_def truthy_def str_arg_def files_by_type_def type_mapping_def)
  then have "get_files_to_reindex fs root fp (Some ''md'') d =
          Inr (sorted_list_of_set (set (extend_from fs root ''docs/adrs'' ''*.md''
                 @ extend_from fs root ''docs/business'' ''*.md'')))"
    by (simp add: get_files_to_reindex_def)
  then show ?thesis
    by (simp add: extend_from_def joinpath_adrs joinpath_business)
qed

theorem md_selection_is_union_witness:
  "\<not> truthy None
   \<and> (\<exists>xs. get_files_to_reindex example_fs example_root None (Some ''md'') None = Inr xs
         \<and> set xs = {[''/'', ''proj'', ''docs'', ''adrs'', ''a.md''],
                     [''/'', ''proj'', ''docs'', ''adrs'', ''b.md''],
                     [''/'', ''proj'', ''docs'', ''business'', ''plan.md'']})"
proof -
  have no_path: "\<not> truthy None" by (simp add: truthy_def)
  have adrs: "path_exists example_fs (example_root @ [''docs'', ''adrs''])"
    and business: "path_exists example_fs (example_root @ [''docs'', ''business''])"
    by code_simp+
  have in_adrs: "rglob example_fs (example_root @ [''docs'', ''adrs'']) ''*.md'' =
                   [[''/'', ''proj'', ''docs'', ''adrs'', ''b.md''],
                    [''/'', ''proj'', ''docs'', ''adrs'', ''a.md'']]"
    by code_simp
  have in_business: "rglob example_fs (example_root @ [''docs'', ''business'']) ''*.md'' =
                       [[''/'', ''proj'', ''docs'', ''business'', ''plan.md'']]"
    by code_simp
  from md_selection_is_union [OF no_path, of example_fs example_root None]
  obtain xs where "get_files_to_reindex example_fs example_root None (Some ''md'') None = Inr xs"
    and "set xs = {[''/'', ''proj'', ''docs'', ''adrs'', ''a.md''],
                   [''/'', ''proj'', ''docs'', ''adrs'', ''b.md''],
                   [''/'', ''proj'', ''docs'', ''business'', ''plan.md'']}"
    unfolding in_adrs in_business using adrs business by auto
  with no_path show ?thesis by blast
qed


section \<open>The in-memory store: bootstrap, dry run, reconciling twice\<close>

lemma put_documents_Nil: "put_documents n d [] = []"
  by (simp add: put_documents_def)

lemma put_documents_Cons:
  "put_documents n d ((a, b) # s) = (if a = n then (a, d) else (a, b)) # put_documents n d s"
  by (simp add: put_documents_def)

lemma map_of_put_documents:
  "map_of (put_documents n d s) k = (if k = n \<and> n \<in> set (map fst s) then Some d else map_of s k)"
proof (induction s)
  case Nil
  show ?case by (simp add: put_documents_Nil)
next
  case (Cons ab s)
  obtain a b where ab: "ab = (a, b)" by (cases ab)
  show ?case using Cons.IH by (force simp: ab put_documents_Cons)
qed

lemma fst_put_documents: "map fst (put_documents n d s) = map fst s"
proof (induction s)
  case Nil
  show ?case by (simp add: put_documents_Nil)
next
  case (Cons ab s)
  obtain a b where ab: "ab = (a, b)" by (cases ab)
  show ?case using Cons.IH by (simp add: ab put_documents_Cons)
qed

lemma mem_get_or_create_names:
  "mem_get_or_create_collection n s = (r, s') \<Longrightarrow>
     r = Inr () \<and> set (map fst s') = insert n (set (map fst s))"
  by (auto simp: mem_get_or_create_collection_def split: if_splits)

lemma mem_get_or_create_documents:
  "mem_get_or_create_collection n s = (r, s') \<Longrightarrow> documents_of s' k = documents_of s k"
proof -
  assume h: "mem_get_or_create_collection n s = (r, s')"
  show ?thesis
  proof (cases "n \<in> set (map fst s)")
    case True
    with h show ?thesis by (simp add: mem_get_or_create_collection_def)
  next
    case False
    then have none: "map_of s n = None" by (simp add: map_of_eq_None_iff)
    from False h have s': "s' = s @ [(n, Map.empty)]"
      by (simp add: mem_get_or_create_collection_def)
    show ?thesis
    proof (cases "map_of s k")
      case None
      with none show ?thesis by (simp add: s' documents_of_def map_add_def)
    next
      case (Some d)
      then show ?thesis by (simp add: s' documents_of_def map_add_def)
    qed
  qed
qed

lemma create_collections_mem:
  "\<exists>s'. create_collections mem_client ns s = (Inr (), s')
        \<and> set (map fst s') = set (map fst s) \<union> set ns
        \<and> (\<forall>k. documents_of s' k = documents_of s k)"
proof (induction ns arbitrary: s)
  case Nil
  show ?case by simp
next
  case (Cons n ns)
  obtain r s1 where step: "mem_get_or_create_collection n s = (r, s1)"
    by (cases "mem_get_or_create_collection n s")
  from mem_get_or_create_names [OF step]
  have r: "r = Inr ()" and names: "set (map fst s1) = insert n (set (map fst s))" by simp_all
  have docs: "documents_of s1 k = documents_of s k" for k
    by (rule mem_get_or_create_documents [OF step])
  from Cons.IH [of s1] obtain s' where
    rest: "create_collections mem_client ns s1 = (Inr (), s')"
    and names': "set (map fst s') = set (map fst s1) \<union> set ns"
    and docs': "\<forall>k. documents_of s' k = documents_of s1 k"
    by blast
  have "create_collections mem_client (n # ns) s = (Inr (), s')"
    using step r rest by (simp add: mem_client_def)
  moreover have "set (map fst s') = set (map fst s) \<union> set (n # ns)"
    using names names' by auto
  moreover have "\<forall>k. documents_of s' k = documents_of s k"
    using docs docs' by simp
  ultimately show ?case by blast
qed

lemma verify_collections_mem:
  "verify_collections mem_client s =
     Inr (filter (\<lambda>col. col \<notin> set (map fst s)) REQUIRED_COLLECTIONS)"
  by (simp add: verify_collections_def mem_client_def mem_list_collections_def)

lemma ensure_collections_mem:
  "\<exists>s'. ensure_collections mem_client s =
           (Inr (filter (\<lambda>col. col \<notin> set (map fst s)) REQUIRED_COLLECTIONS), s')
        \<and> set REQUIRED_COLLECTIONS \<subseteq> set (map fst s')
        \<and> (\<forall>k. documents_of s' k = documents_of s k)"
proof -
  let ?missing = "filter (\<lambda>col. col \<notin> set (map fst s)) REQUIRED_COLLECTIONS"
  from create_collections_mem [of ?missing s] obtain s' where
    c: "create_collections mem_client ?missing s = (Inr (), s')"
    and names: "set (map fst s') = set (map fst s) \<union> set ?missing"
    and docs: "\<forall>k. documents_of s' k = documents_of s k"
    by blast
  have "ensure_collections mem_client s = (Inr ?missing, s')"
    using c by (simp add: ensure_collections_def verify_collections_mem)
  moreover have "set REQUIRED_COLLECTIONS \<subseteq> set (map fst s')"
    using names by auto
  ultimately show ?thesis using docs by blast
qed




lemma reindex_command_dry_run_state:
  "opt_dry_run opts \<Longrightarrow>
     snd (reindex_command c con fs root opts confirm s) = s
     \<or> snd (reindex_command c con fs root opts confirm s) = snd (ensure_collections c s)"
  unfolding reindex_command_def
  by (auto split: prod.splits sum.splits)

lemma ensure_collections_mem_documents:
  "documents_of (snd (ensure_collections mem_client s)) k = documents_of s k"
  using ensure_collections_mem [of s] by auto

text \<open>
  Claim C10. In dry-run mode \<^verbatim>\<open>reindex_command\<close> issues no insert and no update:
  for every client and console, the store it leaves is the one it was given or the one
  the collection bootstrap left, since the report only looks documents up. Against the
  document store, every collection then holds exactly the documents it held before the
  run (a collection the bootstrap created is empty).
\<close>

theorem dry_run_changes_no_document:
  assumes "opt_dry_run opts"
  shows "(snd (reindex_command c con fs root opts confirm s) = s
          \<or> snd (reindex_command c con fs root opts confirm s) = snd (ensure_collections c s))
    \<and> (\<forall>name. documents_of (snd (reindex_command mem_client con fs root opts confirm ms)) name
                 = documents_of ms name)"
proof
  show "snd (reindex_command c con fs root opts confirm s) = s
          \<or> snd (reindex_command c con fs root opts confirm s) = snd (ensure_collections c s)"
    using assms by (rule reindex_command_dry_run_state)
next
  from reindex_command_dry_run_state [OF assms, of mem_client con fs root confirm ms]
  show "\<forall>name. documents_of (snd (reindex_command mem_client con fs root opts confirm ms)) name
                 = documents_of ms name"
    by (auto simp: ensure_collections_mem_documents)
qed

theorem dry_run_changes_no_document_witness:
  "opt_dry_run dry_run_options
   \<and> fst (reindex_command mem_client quiet_console example_fs example_root
          dry_run_options False [])
       = DryRunReport
           [(''docs/adrs/a.md'', ''New'', ''Add''), (''docs/adrs/b.md'', ''New'', ''Add''),
            (''docs/business/plan.md'', ''New'', ''Add''),
            (''docs/features/login.feature'', ''New'', ''Add'')]
   \<and> documents_of (snd (reindex_command mem_client quiet_console example_fs example_root
                          dry_run_options False [])) ''features'' ''docs/features/login.feature'' = None"
proof -
  have dry: "opt_dry_run dry_run_options" by (simp add: dry_run_options_def)
  have report: "fst (reindex_command mem_client quiet_console example_fs example_root
          dry_run_options False [])
       = DryRunReport
           [(''docs/adrs/a.md'', ''New'', ''Add''), (''docs/adrs/b.md'', ''New'', ''Add''),
            (''docs/business/plan.md'', ''New'', ''Add''),
            (''docs/features/login.feature'', ''New'', ''Add'')]"
    by code_simp
  from dry_run_changes_no_document
         [OF dry, THEN conjunct2, rule_format,
          of quiet_console example_fs example_root False "[]" "''features''"]
  have "documents_of (snd (reindex_command mem_client quiet_console example_fs example_root
                             dry_run_options False [])) ''features'' ''docs/features/login.feature''
          = documents_of [] ''features'' ''docs/features/login.feature''"
    by simp
  then have "documents_of (snd (reindex_command mem_client quiet_console example_fs example_root
                                  dry_run_options False [])) ''features''
               ''docs/features/login.feature'' = None"
    by (simp add: documents_of_def)
  with dry report show ?thesis by simp
qed


lemma documents_of_existing:
  "cn \<in> set (map fst s) \<Longrightarrow> map_of s cn = Some (documents_of s cn)"
  by (cases "map_of s cn") (auto simp: documents_of_def map_of_eq_None_iff)

lemma documents_of_put_documents:
  "cn \<in> set (map fst s) \<Longrightarrow> documents_of (put_documents cn d s) cn = d"
  by (simp add: documents_of_def map_of_put_documents)

text \<open>
  The in-memory store behaves as the spec describes, read through \<open>map_of\<close>.
\<close>

lemma mem_client_document_store: "document_store mem_client map_of"
  unfolding document_store_def
proof (intro allI impI)
  fix s :: mem and name docs
  assume coll: "map_of s name = Some docs"
  then have "(name, docs) \<in> set s" by (rule map_of_SomeD)
  then have "fst (name, docs) \<in> fst ` set s" by (rule imageI)
  then have names: "name \<in> set (map fst s)" by simp
  have gc: "get_collection mem_client name s = Inr name"
    using names by (simp add: mem_client_def mem_get_collection_def)
  have lk: "\<forall>file_id. collection_get mem_client name [file_id] s
                        = Inr (if docs file_id = None then [] else [file_id])"
    using coll by (simp add: mem_client_def mem_collection_get_def)
  have ins: "\<forall>file_id content md. docs file_id = None \<longrightarrow>
               (\<exists>s'. collection_add mem_client name file_id content md s = (Inr (), s')
                   \<and> map_of s' name
                       = Some (docs(file_id \<mapsto> \<lparr>doc_content = content, doc_metadata = md\<rparr>)))"
  proof (intro allI impI)
    fix file_id content md
    assume "docs file_id = None"
    with coll names
    show "\<exists>s'. collection_add mem_client name file_id content md s = (Inr (), s')
             \<and> map_of s' name
                 = Some (docs(file_id \<mapsto> \<lparr>doc_content = content, doc_metadata = md\<rparr>))"
      by (simp add: mem_client_def mem_collection_add_def map_of_put_documents)
  qed
  have upd: "\<forall>file_id content md. docs file_id \<noteq> None \<longrightarrow>
               (\<exists>s'. collection_update mem_client name file_id content md s = (Inr (), s')
                   \<and> map_of s' name
                       = Some (docs(file_id \<mapsto> \<lparr>doc_content = content, doc_metadata = md\<rparr>)))"
  proof (intro allI impI)
    fix file_id content md
    assume "docs file_id \<noteq> None"
    with coll names
    show "\<exists>s'. collection_update mem_client name file_id content md s = (Inr (), s')
             \<and> map_of s' name
                 = Some (docs(file_id \<mapsto> \<lparr>doc_content = content, doc_metadata = md\<rparr>))"
      by (auto simp: mem_client_def mem_collection_update_def map_of_put_documents)
  qed
  from gc lk ins upd
  show "\<exists>h. get_collection mem_client name s = Inr h
          \<and> (\<forall>file_id. collection_get mem_client h [file_id] s
                          = Inr (if docs file_id = None then [] else [file_id]))
          \<and> (\<forall>file_id content md. docs file_id = None \<longrightarrow>
                (\<exists>s'. collection_add mem_client h file_id content md s = (Inr (), s')
                    \<and> map_of s' name
                        = Some (docs(file_id \<mapsto> \<lparr>doc_content = content, doc_metadata = md\<rparr>))))
          \<and> (\<forall>file_id content md. docs file_id \<noteq> None \<longrightarrow>
                (\<exists>s'. collection_update mem_client h file_id content md s = (Inr (), s')
                    \<and> map_of s' name
                        = Some (docs(file_id \<mapsto> \<lparr>doc_content = content, doc_metadata = md\<rparr>))))"
    by (intro exI [of _ name] conjI)
qed

lemma store_document_absent:
  assumes store: "document_store c collection_of"
    and coll: "collection_of s cn = Some docs"
    and fresh: "docs fid = None"
    and line: "verbose_print con v (AddedLine fid) = Inr ()"
  shows "\<exists>s1. store_document c con cn t fid content v s = (Inr ''added'', s1)
           \<and> collection_of s1 cn
               = Some (docs(fid \<mapsto>
                    \<lparr>doc_content = content,
                     doc_metadata = \<lparr>meta_file_path = fid, meta_type = t,
                                      meta_collection = cn\<rparr>\<rparr>))"
proof -
  let ?md = "\<lparr>meta_file_path = fid, meta_type = t, meta_collection = cn\<rparr>"
  from store [unfolded document_store_def, rule_format, OF coll]
  obtain h where gc: "get_collection c cn s = Inr h"
    and lk: "\<forall>file_id. collection_get c h [file_id] s
                        = Inr (if docs file_id = None then [] else [file_id])"
    and ins: "\<forall>file_id content md. docs file_id = None \<longrightarrow>
               (\<exists>s'. collection_add c h file_id content md s = (Inr (), s')
                   \<and> collection_of s' cn
                       = Some (docs(file_id \<mapsto> \<lparr>doc_content = content, doc_metadata = md\<rparr>)))"
    by blast
  from lk fresh have lk': "collection_get c h [fid] s = Inr []" by simp
  from ins [rule_format, OF fresh, of content ?md]
  obtain s1 where add: "collection_add c h fid content ?md s = (Inr (), s1)"
    and stored: "collection_of s1 cn
                   = Some (docs(fid \<mapsto> \<lparr>doc_content = content, doc_metadata = ?md\<rparr>))"
    by blast
  have "store_document c con cn t fid content v s = (Inr ''added'', s1)"
    using gc lk' add line by (simp add: store_document_def)
  with stored show ?thesis by blast
qed

lemma store_document_present:
  assumes store: "document_store c collection_of"
    and coll: "collection_of s cn = Some docs"
    and present: "docs fid \<noteq> None"
    and line: "verbose_print con v (UpdatedLine fid) = Inr ()"
  shows "\<exists>s1. store_document c con cn t fid content v s = (Inr ''updated'', s1)
           \<and> collection_of s1 cn
               = Some (docs(fid \<mapsto>
                    \<lparr>doc_content = content,
                     doc_metadata = \<lparr>meta_file_path = fid, meta_type = t,
                                      meta_collection = cn\<rparr>\<rparr>))"
proof -
  let ?md = "\<lparr>meta_file_path = fid, meta_type = t, meta_collection = cn\<rparr>"
  from store [unfolded document_store_def, rule_format, OF coll]
  obtain h where gc: "get_collection c cn s = Inr h"
    and lk: "\<forall>file_id. collection_get c h [file_id] s
                        = Inr (if docs file_id = None then [] else [file_id])"
    and upd: "\<forall>file_id content md. docs file_id \<noteq> None \<longrightarrow>
               (\<exists>s'. collection_update c h file_id content md s = (Inr (), s')
                   \<and> collection_of s' cn
                       = Some (docs(file_id \<mapsto> \<lparr>doc_content = content, doc_metadata = md\<rparr>)))"
    by blast
  from lk present have lk': "collection_get c h [fid] s = Inr [fid]" by simp
  from upd [rule_format, OF present, of content ?md]
  obtain s1 where u: "collection_update c h fid content ?md s = (Inr (), s1)"
    and stored: "collection_of s1 cn
                   = Some (docs(fid \<mapsto> \<lparr>doc_content = content, doc_metadata = ?md\<rparr>))"
    by blast
  have "store_document c con cn t fid content v s = (Inr ''updated'', s1)"
    using gc lk' u line by (simp add: store_document_def)
  with stored show ?thesis by blast
qed

text \<open>
  Claim C2, amended. For every file that classifies into a collection and is readable
  at both runs, and every store that behaves as the spec's document store
  (\<open>document_store\<close>: the handle is returned, the existence check answers, the insert
  stores, the update replaces) in which the file's collection exists and holds no
  document under the file's relative path yet: reconciling the file twice in
  succession, the run not verbose or the two progress lines printed without raising,
  returns \<^verbatim>\<open>added\<close>, then \<^verbatim>\<open>updated\<close>, and after the second run the document
  stored under the relative path has the content the file had at that time, with the
  three metadata fields.
\<close>

theorem twice_added_then_updated:
  assumes store: "document_store c collection_of"
    and rel: "relative_to p root = Inr rel"
    and cls: "get_collection_for_file p root = Inr (Some cn)"
    and rd1: "read_text fs1 p = Inr content1"
    and rd2: "read_text fs2 p = Inr content2"
    and coll: "collection_of s cn = Some docs"
    and fresh: "docs (str_path rel) = None"
    and lines: "v \<longrightarrow> con (AddedLine (str_path rel)) = Inr ()
                      \<and> con (UpdatedLine (str_path rel)) = Inr ()"
  shows "\<exists>s1 s2 t docs2. get_file_type p root = Inr (Some t)
           \<and> reindex_file c con fs1 p root v s = (Inr ''added'', s1)
           \<and> reindex_file c con fs2 p root v s1 = (Inr ''updated'', s2)
           \<and> collection_of s2 cn = Some docs2
           \<and> docs2 (str_path rel) =
               Some \<lparr>doc_content = content2,
                     doc_metadata = \<lparr>meta_file_path = str_path rel, meta_type = t,
                                      meta_collection = cn\<rparr>\<rparr>"
proof -
  let ?fid = "str_path rel"
  from lines have line1: "verbose_print con v (AddedLine ?fid) = Inr ()"
    and line2: "verbose_print con v (UpdatedLine ?fid) = Inr ()"
    by (simp_all add: verbose_print_def)
  from reindex_file_classified [OF rel cls rd1, of c con v s]
  obtain m where m: "(cn, m) \<in> set COLLECTION_MAPPINGS"
    and ft: "get_file_type p root = Inr (Some (doc_type m))"
    and r1: "reindex_file c con fs1 p root v s =
               store_document c con cn (doc_type m) ?fid content1 v s"
    by blast
  let ?d1 = "\<lparr>doc_content = content1,
               doc_metadata = \<lparr>meta_file_path = ?fid, meta_type = doc_type m,
                                meta_collection = cn\<rparr>\<rparr>"
  let ?d2 = "\<lparr>doc_content = content2,
               doc_metadata = \<lparr>meta_file_path = ?fid, meta_type = doc_type m,
                                meta_collection = cn\<rparr>\<rparr>"
  from store_document_absent [OF store coll fresh line1, of "doc_type m" content1]
  obtain s1 where sd1: "store_document c con cn (doc_type m) ?fid content1 v s
                          = (Inr ''added'', s1)"
    and coll1: "collection_of s1 cn = Some (docs(?fid \<mapsto> ?d1))"
    by blast
  from r1 sd1 have first: "reindex_file c con fs1 p root v s = (Inr ''added'', s1)" by simp
  have present: "(docs(?fid \<mapsto> ?d1)) ?fid \<noteq> None" by simp
  from reindex_file_classified [OF rel cls rd2, of c con v s1] ft
  have r2: "reindex_file c con fs2 p root v s1 =
              store_document c con cn (doc_type m) ?fid content2 v s1"
    by auto
  from store_document_present [OF store coll1 present line2, of "doc_type m" content2]
  obtain s2 where sd2: "store_document c con cn (doc_type m) ?fid content2 v s1
                          = (Inr ''updated'', s2)"
    and coll2: "collection_of s2 cn = Some ((docs(?fid \<mapsto> ?d1))(?fid \<mapsto> ?d2))"
    by blast
  from r2 sd2 have second: "reindex_file c con fs2 p root v s1 = (Inr ''updated'', s2)"
    by simp
  have stored: "((docs(?fid \<mapsto> ?d1))(?fid \<mapsto> ?d2)) ?fid = Some ?d2" by simp
  from ft first second coll2 stored show ?thesis by blast
qed

theorem twice_added_then_updated_witness:
  "fst (reindex_file mem_client quiet_console example_fs
          [''/'', ''proj'', ''docs'', ''adrs'', ''b.md''] example_root True example_store)
     = Inr ''added''
   \<and> fst (reindex_file mem_client quiet_console edited_fs
            [''/'', ''proj'', ''docs'', ''adrs'', ''b.md''] example_root True
            (snd (reindex_file mem_client quiet_console example_fs
                    [''/'', ''proj'', ''docs'', ''adrs'', ''b.md''] example_root True
                    example_store))) = Inr ''updated''
   \<and> map_option doc_content
         (documents_of
            (snd (reindex_file mem_client quiet_console edited_fs
                    [''/'', ''proj'', ''docs'', ''adrs'', ''b.md''] example_root True
                    (snd (reindex_file mem_client quiet_console example_fs
                            [''/'', ''proj'', ''docs'', ''adrs'', ''b.md''] example_root True
                            example_store))))
            ''business-and-architecture'' ''docs/adrs/b.md'') = Some ''an edited text''"
proof -
  have rel: "relative_to [''/'', ''proj'', ''docs'', ''adrs'', ''b.md''] example_root
               = Inr [''docs'', ''adrs'', ''b.md'']"
    by (simp add: relative_to_def example_root_def)
  have str: "str_path [''docs'', ''adrs'', ''b.md''] = ''docs/adrs/b.md''"
    by (simp add: str_path_def is_absolute_def)
  have cls: "get_collection_for_file [''/'', ''proj'', ''docs'', ''adrs'', ''b.md''] example_root
               = Inr (Some ''business-and-architecture'')"
    by (simp add: eval_defs)
  have rd1: "read_text example_fs [''/'', ''proj'', ''docs'', ''adrs'', ''b.md'']
               = Inr ''some text''"
    by (simp add: example_fs_def)
  have rd2: "read_text edited_fs [''/'', ''proj'', ''docs'', ''adrs'', ''b.md'']
               = Inr ''an edited text''"
    by (simp add: edited_fs_def)
  have coll: "map_of example_store ''business-and-architecture'' = Some Map.empty"
    by (simp add: example_store_def)
  have fresh: "(Map.empty :: string \<rightharpoonup> document) (str_path [''docs'', ''adrs'', ''b.md''])
                 = None"
    by simp
  have lines: "True \<longrightarrow>
                 quiet_console (AddedLine (str_path [''docs'', ''adrs'', ''b.md''])) = Inr ()
                 \<and> quiet_console (UpdatedLine (str_path [''docs'', ''adrs'', ''b.md''])) = Inr ()"
    by (simp add: quiet_console_def)
  from twice_added_then_updated
         [where c = mem_client and collection_of = map_of and s = example_store
            and docs = Map.empty and rel = "[''docs'', ''adrs'', ''b.md'']"
            and v = True and con = quiet_console,
          OF mem_client_document_store rel cls rd1 rd2 coll fresh lines]
  obtain s1 s2 t docs2 where
    first: "reindex_file mem_client quiet_console example_fs
              [''/'', ''proj'', ''docs'', ''adrs'', ''b.md''] example_root True example_store
              = (Inr ''added'', s1)"
    and second: "reindex_file mem_client quiet_console edited_fs
                   [''/'', ''proj'', ''docs'', ''adrs'', ''b.md''] example_root True s1
                   = (Inr ''updated'', s2)"
    and coll2: "map_of s2 ''business-and-architecture'' = Some docs2"
    and stored: "docs2 (str_path [''docs'', ''adrs'', ''b.md'']) =
       Some \<lparr>doc_content = ''an edited text'',
             doc_metadata = \<lparr>meta_file_path = str_path [''docs'', ''adrs'', ''b.md''],
                              meta_type = t,
                              meta_collection = ''business-and-architecture''\<rparr>\<rparr>"
    by blast
  from coll2 stored
  have "map_option doc_content (documents_of s2 ''business-and-architecture'' ''docs/adrs/b.md'')
          = Some ''an edited text''"
    by (simp add: documents_of_def str)
  with first second show ?thesis by simp
qed

text \<open>
  The claim as stated, for every classified file and every store, fails: where the
  document is already stored, the first of the two runs returns \<^verbatim>\<open>updated\<close>; an
  unreadable file, a store without the file's collection and a store whose insert or
  update raises give an exception instead of an outcome; with a store whose existence
  check raises, both runs return \<^verbatim>\<open>added\<close> and the content of the first run stays;
  and in a verbose run the progress line of a path such as \<^verbatim>\<open>docs/adrs/a[/x].md\<close>
  raises after the insert.
\<close>

theorem twice_added_then_updated_counterexample:
  "get_collection_for_file [''/'', ''proj'', ''docs'', ''adrs'', ''b.md''] example_root
     = Inr (Some ''business-and-architecture'')
   \<and> get_collection_for_file [''/'', ''proj'', ''docs'', ''adrs'', ''a.md''] example_root
       = Inr (Some ''business-and-architecture'')
   \<and> get_collection_for_file bracket_file example_root
       = Inr (Some ''business-and-architecture'')
   \<and> fst (reindex_file mem_client quiet_console example_fs
            [''/'', ''proj'', ''docs'', ''adrs'', ''b.md''] example_root False indexed_store)
       = Inr ''updated''
   \<and> fst (reindex_file mem_client quiet_console example_fs
            [''/'', ''proj'', ''docs'', ''adrs'', ''a.md''] example_root False example_store)
       = Inl (ReadError ''permission denied'')
   \<and> fst (reindex_file mem_client quiet_console example_fs
            [''/'', ''proj'', ''docs'', ''adrs'', ''b.md''] example_root False [])
       = Inl (StoreError ''collection does not exist'')
   \<and> fst (reindex_file read_only_client quiet_console example_fs
            [''/'', ''proj'', ''docs'', ''adrs'', ''b.md''] example_root False example_store)
       = Inl (StoreError ''insert failed'')
   \<and> fst (reindex_file read_only_client quiet_console example_fs
            [''/'', ''proj'', ''docs'', ''adrs'', ''b.md''] example_root False indexed_store)
       = Inl (StoreError ''update failed'')
   \<and> fst (reindex_file failing_lookup_client quiet_console example_fs
            [''/'', ''proj'', ''docs'', ''adrs'', ''b.md''] example_root False example_store)
       = Inr ''added''
   \<and> fst (reindex_file failing_lookup_client quiet_console edited_fs
            [''/'', ''proj'', ''docs'', ''adrs'', ''b.md''] example_root False
            (snd (reindex_file failing_lookup_client quiet_console example_fs
                    [''/'', ''proj'', ''docs'', ''adrs'', ''b.md''] example_root False
                    example_store))) = Inr ''added''
   \<and> map_option doc_content
        (documents_of
           (snd (reindex_file failing_lookup_client quiet_console edited_fs
                   [''/'', ''proj'', ''docs'', ''adrs'', ''b.md''] example_root False
                   (snd (reindex_file failing_lookup_client quiet_console example_fs
                           [''/'', ''proj'', ''docs'', ''adrs'', ''b.md''] example_root False
                           example_store))))
           ''business-and-architecture'' ''docs/adrs/b.md'') = Some ''some text''
   \<and> fst (reindex_file mem_client markup_console readable_bracket_fs bracket_file
            example_root True example_store)
       = Inl (PrintError ''closing tag [/x] does not match any open tag'')"
proof (intro conjI)
  show "get_collection_for_file [''/'', ''proj'', ''docs'', ''adrs'', ''b.md''] example_root
          = Inr (Some ''business-and-architecture'')"
    by (simp add: eval_defs)
  show "get_collection_for_file [''/'', ''proj'', ''docs'', ''adrs'', ''a.md''] example_root
          = Inr (Some ''business-and-architecture'')"
    by (simp add: eval_defs)
  show "get_collection_for_file bracket_file example_root
          = Inr (Some ''business-and-architecture'')"
    by (simp add: eval_defs bracket_file_def)
  show "fst (reindex_file mem_client quiet_console example_fs
               [''/'', ''proj'', ''docs'', ''adrs'', ''b.md''] example_root False indexed_store)
          = Inr ''updated''"
    by (simp add: eval_defs indexed_store_def)
  show "fst (reindex_file mem_client quiet_console example_fs
               [''/'', ''proj'', ''docs'', ''adrs'', ''a.md''] example_root False example_store)
          = Inl (ReadError ''permission denied'')"
    by (simp add: eval_defs)
  show "fst (reindex_file mem_client quiet_console example_fs
               [''/'', ''proj'', ''docs'', ''adrs'', ''b.md''] example_root False [])
          = Inl (StoreError ''collection does not exist'')"
    by (simp add: eval_defs)
  show "fst (reindex_file read_only_client quiet_console example_fs
               [''/'', ''proj'', ''docs'', ''adrs'', ''b.md''] example_root False example_store)
          = Inl (StoreError ''insert failed'')"
    by (simp add: eval_defs read_only_client_def)
  show "fst (reindex_file read_only_client quiet_console example_fs
               [''/'', ''proj'', ''docs'', ''adrs'', ''b.md''] example_root False indexed_store)
          = Inl (StoreError ''update failed'')"
    by (simp add: eval_defs read_only_client_def indexed_store_def)
  show "fst (reindex_file failing_lookup_client quiet_console example_fs
               [''/'', ''proj'', ''docs'', ''adrs'', ''b.md''] example_root False example_store)
          = Inr ''added''"
    by (simp add: eval_defs failing_lookup_client_def)
  show "fst (reindex_file failing_lookup_client quiet_console edited_fs
               [''/'', ''proj'', ''docs'', ''adrs'', ''b.md''] example_root False
               (snd (reindex_file failing_lookup_client quiet_console example_fs
                       [''/'', ''proj'', ''docs'', ''adrs'', ''b.md''] example_root False
                       example_store))) = Inr ''added''"
    by (simp add: eval_defs failing_lookup_client_def edited_fs_def)
  show "map_option doc_content
          (documents_of
             (snd (reindex_file failing_lookup_client quiet_console edited_fs
                     [''/'', ''proj'', ''docs'', ''adrs'', ''b.md''] example_root False
                     (snd (reindex_file failing_lookup_client quiet_console example_fs
                             [''/'', ''proj'', ''docs'', ''adrs'', ''b.md''] example_root False
                             example_store))))
             ''business-and-architecture'' ''docs/adrs/b.md'') = Some ''some text''"
    by (simp add: eval_defs failing_lookup_client_def edited_fs_def documents_of_def)
  show "fst (reindex_file mem_client markup_console readable_bracket_fs bracket_file
               example_root True example_store)
          = Inl (PrintError ''closing tag [/x] does not match any open tag'')"
    by (simp add: eval_defs readable_bracket_fs_def bracket_fs_def bracket_file_def
          render_markup_def)
qed


section \<open>Classification and directory containment\<close>

text \<open>
  The selection modes that enumerate (by type, by directory, all) return only paths that
  lie below a registered directory, component by component, and that classify.
\<close>

lemma collection_in_dirs_hit:
  "d \<in> set ds \<Longrightarrow> startswith rel d \<Longrightarrow> path_match p (file_pattern m) \<Longrightarrow>
     collection_in_dirs n m p rel ds = Some n"
  by (induction ds) auto

lemma collection_in_mappings_hit:
  "(cn, m) \<in> set ms \<Longrightarrow> d \<in> set (directories m) \<Longrightarrow> startswith rel d \<Longrightarrow>
     path_match p (file_pattern m) \<Longrightarrow> collection_in_mappings ms p rel \<noteq> None"
proof (induction ms)
  case Nil
  then show ?case by simp
next
  case (Cons nm ms)
  obtain n' m' where nm: "nm = (n', m')" by (cases nm)
  show ?case
  proof (cases "collection_in_dirs n' m' p rel (directories m')")
    case (Some a)
    then show ?thesis by (simp add: nm)
  next
    case None
    have "(cn, m) \<noteq> (n', m')"
    proof
      assume "(cn, m) = (n', m')"
      with Cons.prems collection_in_dirs_hit [of d "directories m" rel p m cn] None
      show False by simp
    qed
    with Cons.prems(1) have "(cn, m) \<in> set ms" by (auto simp: nm)
    from Cons.IH [OF this Cons.prems(2,3,4)] None show ?thesis by (simp add: nm)
  qed
qed


lemma startswith_join:
  "rest \<noteq> [] \<Longrightarrow> startswith (str_path ([''docs'', x] @ rest)) (''docs/'' @ x)"
  by (cases rest) (simp_all add: str_path_def is_absolute_def startswith_def)

lemma path_match_nonempty: "p \<noteq> [] \<Longrightarrow> path_match p pattern = fnmatchcase (last p) pattern"
  by (cases p) (simp_all add: path_match_def)

lemma below_registered_classifies:
  assumes m: "(cn, m) \<in> set COLLECTION_MAPPINGS"
    and d: "d \<in> set (directories m)"
    and below: "strict_prefix (joinpath root d) p"
    and pat: "fnmatchcase (last p) (file_pattern m)"
  shows "in_registered_directory root p \<and> (\<exists>cn'. get_collection_for_file p root = Inr (Some cn'))"
proof -
  from m d obtain x where dx: "d = ''docs/'' @ x" and jp: "joinpath root d = root @ [''docs'', x]"
    by (auto simp: COLLECTION_MAPPINGS_def joinpath_adrs joinpath_business joinpath_features
          joinpath_ts4 joinpath_ui_intent)
  from below jp obtain rest where p: "p = root @ [''docs'', x] @ rest" and rest: "rest \<noteq> []"
    by (auto simp: strict_prefix_def prefix_def)
  have rel: "relative_to p root = Inr ([''docs'', x] @ rest)"
    by (simp add: relative_to_def p)
  have sw: "startswith (str_path ([''docs'', x] @ rest)) d"
    unfolding dx by (rule startswith_join [OF rest])
  from p have ne: "p \<noteq> []" by simp
  have pm: "path_match p (file_pattern m)"
    unfolding path_match_nonempty [OF ne] by (rule pat)
  from collection_in_mappings_hit [OF m d sw pm]
  have "\<exists>cn'. get_collection_for_file p root = Inr (Some cn')"
    by (auto simp: get_collection_for_file_def rel)
  moreover have "in_registered_directory root p"
    using m d below by (auto simp: in_registered_directory_def list_ex_iff)
  ultimately show ?thesis by simp
qed


lemma extend_from_member:
  "p \<in> set (extend_from fs root d pat) \<Longrightarrow>
     strict_prefix (joinpath root d) p \<and> fnmatchcase (last p) pat"
  by (auto simp: extend_from_def Let_def set_rglob split: if_splits)

lemma files_in_directory_member:
  "files_in_directory fs dp d ms = Inr files \<Longrightarrow>
     \<exists>cn m. (cn, m) \<in> set ms \<and> d \<in> set (directories m) \<and> files = rglob fs dp (file_pattern m)"
proof (induction ms)
  case Nil
  then show ?case by simp
next
  case (Cons nm ms)
  obtain n' m' where nm: "nm = (n', m')" by (cases nm)
  show ?case
  proof (cases "d \<in> set (directories m')")
    case True
    with Cons.prems have "files = rglob fs dp (file_pattern m')" by (simp add: nm)
    with True show ?thesis by (auto simp: nm)
  next
    case False
    with Cons.prems have "files_in_directory fs dp d ms = Inr files" by (simp add: nm)
    from Cons.IH [OF this] show ?thesis by auto
  qed
qed


lemma map_of_type_mapping:
  "map_of type_mapping t =
     (if t = ''ts4'' then Some (''docs/ts4'', ''*.ts4'')
      else if t = ''feature'' then Some (''docs/features'', ''*.feature'')
      else if t = ''md'' then Some (''docs/adrs'', ''*.md'')
      else if t = ''yaml'' then Some (''docs/ui-intent'', ''*.yaml'')
      else None)"
  by (simp add: type_mapping_def)

lemma files_by_type_cases:
  assumes "files_by_type fs root t = Inr files"
  shows "files = extend_from fs root ''docs/adrs'' ''*.md'' @ extend_from fs root ''docs/business'' ''*.md''
      \<or> files = extend_from fs root ''docs/ts4'' ''*.ts4''
      \<or> files = extend_from fs root ''docs/features'' ''*.feature''
      \<or> files = extend_from fs root ''docs/ui-intent'' ''*.yaml''"
proof (cases "t = ''md''")
  case True
  with assms show ?thesis by (simp add: files_by_type_def map_of_type_mapping)
next
  case False
  with assms show ?thesis
    by (simp add: files_by_type_def map_of_type_mapping split: if_splits)
qed


lemma registered_adrs:
  "p \<in> set (extend_from fs root ''docs/adrs'' ''*.md'') \<Longrightarrow>
     \<exists>cn m dir. (cn, m) \<in> set COLLECTION_MAPPINGS \<and> dir \<in> set (directories m)
       \<and> strict_prefix (joinpath root dir) p \<and> fnmatchcase (last p) (file_pattern m)"
  apply (drule extend_from_member)
  apply (rule exI [of _ "''business-and-architecture''"])
  apply (rule exI [of _ "\<lparr>directories = [''docs/adrs'', ''docs/business''], file_pattern = ''*.md'', doc_type = ''adr''\<rparr>"])
  apply (rule exI [of _ "''docs/adrs''"])
  apply (simp add: COLLECTION_MAPPINGS_def)
  done

lemma registered_business:
  "p \<in> set (extend_from fs root ''docs/business'' ''*.md'') \<Longrightarrow>
     \<exists>cn m dir. (cn, m) \<in> set COLLECTION_MAPPINGS \<and> dir \<in> set (directories m)
       \<and> strict_prefix (joinpath root dir) p \<and> fnmatchcase (last p) (file_pattern m)"
  apply (drule extend_from_member)
  apply (rule exI [of _ "''business-and-architecture''"])
  apply (rule exI [of _ "\<lparr>directories = [''docs/adrs'', ''docs/business''], file_pattern = ''*.md'', doc_type = ''adr''\<rparr>"])
  apply (rule exI [of _ "''docs/business''"])
  apply (simp add: COLLECTION_MAPPINGS_def)
  done

lemma registered_ts4:
  "p \<in> set (extend_from fs root ''docs/ts4'' ''*.ts4'') \<Longrightarrow>
     \<exists>cn m dir. (cn, m) \<in> set COLLECTION_MAPPINGS \<and> dir \<in> set (directories m)
       \<and> strict_prefix (joinpath root dir) p \<and> fnmatchcase (last p) (file_pattern m)"
  apply (drule extend_from_member)
  apply (rule exI [of _ "''tech-specs''"])
  apply (rule exI [of _ "\<lparr>directories = [''docs/ts4''], file_pattern = ''*.ts4'', doc_type = ''ts4''\<rparr>"])
  apply (rule exI [of _ "''docs/ts4''"])
  apply (simp add: COLLECTION_MAPPINGS_def)
  done

lemma registered_features:
  "p \<in> set (extend_from fs root ''docs/features'' ''*.feature'') \<Longrightarrow>
     \<exists>cn m dir. (cn, m) \<in> set COLLECTION_MAPPINGS \<and> dir \<in> set (directories m)
       \<and> strict_prefix (joinpath root dir) p \<and> fnmatchcase (last p) (file_pattern m)"
  apply (drule extend_from_member)
  apply (rule exI [of _ "''features''"])
  apply (rule exI [of _ "\<lparr>directories = [''docs/features''], file_pattern = ''*.feature'', doc_type = ''feature''\<rparr>"])
  apply (rule exI [of _ "''docs/features''"])
  apply (simp add: COLLECTION_MAPPINGS_def)
  done

lemma registered_ui_intent:
  "p \<in> set (extend_from fs root ''docs/ui-intent'' ''*.yaml'') \<Longrightarrow>
     \<exists>cn m dir. (cn, m) \<in> set COLLECTION_MAPPINGS \<and> dir \<in> set (directories m)
       \<and> strict_prefix (joinpath root dir) p \<and> fnmatchcase (last p) (file_pattern m)"
  apply (drule extend_from_member)
  apply (rule exI [of _ "''uisi''"])
  apply (rule exI [of _ "\<lparr>directories = [''docs/ui-intent''], file_pattern = ''*.yaml'', doc_type = ''ui-intent''\<rparr>"])
  apply (rule exI [of _ "''docs/ui-intent''"])
  apply (simp add: COLLECTION_MAPPINGS_def)
  done


lemma set_files_all:
  "set (files_all fs root) =
     set (extend_from fs root ''docs/adrs'' ''*.md'')
     \<union> set (extend_from fs root ''docs/business'' ''*.md'')
     \<union> set (extend_from fs root ''docs/features'' ''*.feature'')
     \<union> set (extend_from fs root ''docs/ts4'' ''*.ts4'')
     \<union> set (extend_from fs root ''docs/ui-intent'' ''*.yaml'')"
  by (simp add: files_all_def COLLECTION_MAPPINGS_def Un_assoc)

lemma collected_files_below_registered:
  assumes nofile: "\<not> truthy fp"
    and coll: "collect_files fs root fp ft d = Inr files"
    and mem: "p \<in> set files"
  shows "\<exists>cn m dir. (cn, m) \<in> set COLLECTION_MAPPINGS \<and> dir \<in> set (directories m)
           \<and> strict_prefix (joinpath root dir) p \<and> fnmatchcase (last p) (file_pattern m)"
proof (cases "truthy ft")
  case True
  with nofile coll have "files_by_type fs root (str_arg ft) = Inr files"
    by (simp add: collect_files_def)
  from files_by_type_cases [OF this] mem
  have "p \<in> set (extend_from fs root ''docs/adrs'' ''*.md'')
      \<or> p \<in> set (extend_from fs root ''docs/business'' ''*.md'')
      \<or> p \<in> set (extend_from fs root ''docs/ts4'' ''*.ts4'')
      \<or> p \<in> set (extend_from fs root ''docs/features'' ''*.feature'')
      \<or> p \<in> set (extend_from fs root ''docs/ui-intent'' ''*.yaml'')"
    by auto
  then show ?thesis
    using registered_adrs registered_business registered_ts4 registered_features
      registered_ui_intent
    by (elim disjE)
next
  case False
  note noft = this
  show ?thesis
  proof (cases "truthy d")
    case True
    with nofile noft coll have bd: "files_by_directory fs root (str_arg d) = Inr files"
      by (simp add: collect_files_def)
    then have "files_in_directory fs (joinpath root (str_arg d)) (str_arg d) COLLECTION_MAPPINGS
                 = Inr files"
      by (simp add: files_by_directory_def Let_def split: if_splits)
    from files_in_directory_member [OF this]
    obtain cn m where m: "(cn, m) \<in> set COLLECTION_MAPPINGS"
      and dir: "str_arg d \<in> set (directories m)"
      and files: "files = rglob fs (joinpath root (str_arg d)) (file_pattern m)"
      by blast
    from mem files have "strict_prefix (joinpath root (str_arg d)) p"
      and "fnmatchcase (last p) (file_pattern m)"
      by (simp_all add: set_rglob)
    with m dir show ?thesis by blast
  next
    case False
    with nofile noft coll have "files = files_all fs root"
      by (simp add: collect_files_def)
    with mem have "p \<in> set (extend_from fs root ''docs/adrs'' ''*.md'')
      \<or> p \<in> set (extend_from fs root ''docs/business'' ''*.md'')
      \<or> p \<in> set (extend_from fs root ''docs/ts4'' ''*.ts4'')
      \<or> p \<in> set (extend_from fs root ''docs/features'' ''*.feature'')
      \<or> p \<in> set (extend_from fs root ''docs/ui-intent'' ''*.yaml'')"
      by (auto simp: set_files_all)
    then show ?thesis
      using registered_adrs registered_business registered_ts4 registered_features
        registered_ui_intent
      by (elim disjE)
  qed
qed


lemma enumerated_files_classify:
  assumes "\<not> truthy fp"
    and "get_files_to_reindex fs root fp ft d = Inr xs"
    and "p \<in> set xs"
  shows "in_registered_directory root p \<and> (\<exists>cn. get_collection_for_file p root = Inr (Some cn))"
proof -
  from assms(2) obtain files where coll: "collect_files fs root fp ft d = Inr files"
    and xs: "xs = sorted_list_of_set (set files)"
    by (auto simp: get_files_to_reindex_def split: sum.splits)
  from xs assms(3) have "p \<in> set files" by simp
  from collected_files_below_registered [OF assms(1) coll this]
  obtain cn m dir where "(cn, m) \<in> set COLLECTION_MAPPINGS" "dir \<in> set (directories m)"
    "strict_prefix (joinpath root dir) p" "fnmatchcase (last p) (file_pattern m)"
    by blast
  then show ?thesis by (rule below_registered_classifies)
qed

text \<open>
  Claim C3. A path that lies outside every registered source directory should classify
  as no match and be excluded from every selection mode. The classifier tests the
  directory name as a string prefix of the relative path, not as an ancestor of the
  path: the record \<^verbatim>\<open>docs/adrs-old/x.md\<close> lies in no registered directory, yet it
  classifies into \<^verbatim>\<open>business-and-architecture\<close>, and selecting it as a single file
  returns it.
\<close>

theorem sibling_directory_is_classified:
  "\<not> in_registered_directory example_root [''/'', ''proj'', ''docs'', ''adrs-old'', ''x.md'']
   \<and> get_collection_for_file [''/'', ''proj'', ''docs'', ''adrs-old'', ''x.md''] example_root
       = Inr (Some ''business-and-architecture'')
   \<and> get_files_to_reindex example_fs example_root (Some ''docs/adrs-old/x.md'') None None
       = Inr [[''/'', ''proj'', ''docs'', ''adrs-old'', ''x.md'']]"
  by code_simp

end
